theory Spec2Isabelle
  imports Main "HOL-Library.Multiset" "HOL-Library.Product_Lexorder"
begin

section \<open>Cache-aside data access of ozpcenter (model\_access.py)\<close>

subsection \<open>Cache key normalisation\<close>

text \<open>
  Python source:
  \<^verbatim>\<open>def make_keysafe(key): return re.sub(r'\W+', '', key).lower()\<close>

  A string is a list of characters. The model covers ASCII text, where the word
  characters of \<^verbatim>\<open>\W\<close> are the letters, the digits and the underscore, and
  \<^verbatim>\<open>lower()\<close> maps \<open>A..Z\<close> to \<open>a..z\<close> and keeps every other character.
  Deleting every maximal run of non-word characters leaves exactly the word characters,
  in their order.
\<close>

definition ascii_upper :: string where
  "ascii_upper = ''ABCDEFGHIJKLMNOPQRSTUVWXYZ''"

definition ascii_lower :: string where
  "ascii_lower = ''abcdefghijklmnopqrstuvwxyz''"

definition ascii_digits :: string where
  "ascii_digits = ''0123456789''"

definition is_alnum :: "char \<Rightarrow> bool" where
  "is_alnum c = (c \<in> set (ascii_lower @ ascii_upper @ ascii_digits))"

definition is_word_char :: "char \<Rightarrow> bool" where
  "is_word_char c = (is_alnum c \<or> c = CHR ''_'')"

definition char_lower :: "char \<Rightarrow> char" where
  "char_lower c = (case map_of (zip ascii_upper ascii_lower) c of Some l \<Rightarrow> l | None \<Rightarrow> c)"

definition make_keysafe :: "string \<Rightarrow> string" where
  "make_keysafe key = map char_lower (filter is_word_char key)"

text \<open>
  The normalisation as the documentation words it ("make it lower case and remove all
  non alpha-numeric characters"), for comparison with \<^const>\<open>make_keysafe\<close>.
\<close>

definition keysafe_documented :: "string \<Rightarrow> string" where
  "keysafe_documented key = map char_lower (filter is_alnum key)"

subsection \<open>Storage, cache and effects\<close>

text \<open>
  An exception carries the text that \<^verbatim>\<open>str(e)\<close> gives. \<open>DoesNotExist\<close> is what
  \<^verbatim>\<open>Profile.objects.get\<close> raises when no row matches; \<open>UpstreamFault\<close> is any
  other exception of the backing data source.
\<close>

datatype exn = DoesNotExist string | UpstreamFault string

fun exn_str :: "exn \<Rightarrow> string" where
  "exn_str (DoesNotExist m) = m"
| "exn_str (UpstreamFault m) = m"

text \<open>
  The identity as \<^verbatim>\<open>get_storefront\<close> reads it: the titles of
  \<^verbatim>\<open>user.organizations.all()\<close> in the order the query returns them, and
  \<^verbatim>\<open>user.access_control.title\<close>.
\<close>

record profile =
  organization_titles :: "string list"
  access_control_title :: string

text \<open>
  A listing with the fields the storefront queries read. The model classes are not part
  of the sources, so the types of \<^verbatim>\<open>approved_date\<close> and \<^verbatim>\<open>avg_rate\<close> are
  parameters; the queries only order by them.
\<close>

record ('t, 'r) listing =
  listing_id :: nat
  is_featured :: bool
  approved_date :: 't
  avg_rate :: 'r

datatype field_value = Str string | Bool bool | Null

type_synonym row = "(string \<times> field_value) list"

text \<open>
  The values this module returns and caches: the storefront dictionary, the metadata
  dictionary and the error dictionary \<^verbatim>\<open>{'error': True, 'msg': ...}\<close>.
\<close>

datatype ('t, 'r) pyval =
    Storefront (featured: "('t, 'r) listing list") (recent: "('t, 'r) listing list")
      (most_popular: "('t, 'r) listing list")
  | Metadata (categories: "row list") (listing_types: "row list") (agencies: "row list")
      (contact_types: "row list") (intents: "row list")
  | ErrorDict (msg: string)

text \<open>
  A Django \<^verbatim>\<open>QuerySet\<close> is lazy: building, filtering, ordering and slicing it reads
  nothing, and the rows are fetched when it is evaluated. A query set is modelled by what
  its evaluation gives, the rows or the fault the database raises then. The methods
  \<^verbatim>\<open>filter\<close>, \<^verbatim>\<open>order_by\<close>, \<^verbatim>\<open>values\<close> and the slice \<^verbatim>\<open>[:n]\<close> refine the
  rows that an evaluation will give and leave a fault as it is. \<^verbatim>\<open>order_by\<close> sorts
  ascending; the order among rows of equal key, which the database leaves open, is
  the order of the rows.
\<close>

type_synonym 'a queryset = "exn + 'a list"

definition refine :: "('a list \<Rightarrow> 'b list) \<Rightarrow> 'a queryset \<Rightarrow> 'b queryset" where
  "refine f q = (case q of Inl e \<Rightarrow> Inl e | Inr rows \<Rightarrow> Inr (f rows))"

definition filter_by :: "('a \<Rightarrow> bool) \<Rightarrow> 'a queryset \<Rightarrow> 'a queryset" where
  "filter_by p q = refine (filter p) q"

definition order_by :: "('a \<Rightarrow> 'k::linorder) \<Rightarrow> 'a queryset \<Rightarrow> 'a queryset" where
  "order_by f q = refine (sort_key f) q"

definition slice_to :: "nat \<Rightarrow> 'a queryset \<Rightarrow> 'a queryset" where
  "slice_to n q = refine (take n) q"

text \<open>\<^verbatim>\<open>.values(f1, f2, ...)\<close>: each row projected to the named fields.\<close>

definition values_of :: "string list \<Rightarrow> row list \<Rightarrow> row list" where
  "values_of names rows = map (filter (\<lambda>kv. fst kv \<in> set names)) rows"

definition values_qs :: "string list \<Rightarrow> row queryset \<Rightarrow> row queryset" where
  "values_qs names q = refine (values_of names) q"

text \<open>
  The backing data source. \<open>for_user db k username\<close> is the outcome of the call number
  \<open>k\<close> (from 0) that a request makes of the manager method
  \<^verbatim>\<open>Listing.objects.for_user(username)\<close>: the call raises, or it returns the query set
  of the listings visible to the user. The calls of one request are separate calls, so
  each has an outcome of its own. The five catalogue tables are the query sets
  \<^verbatim>\<open>objects.all()\<close> of each model; building them reads nothing.
\<close>

record ('t, 'r) storage =
  profiles :: "string \<rightharpoonup> profile"
  for_user :: "nat \<Rightarrow> string \<Rightarrow> exn + ('t, 'r) listing queryset"
  category_rows :: "row queryset"
  listing_type_rows :: "row queryset"
  agency_rows :: "row queryset"
  contact_type_rows :: "row queryset"
  intent_rows :: "row queryset"

type_synonym ('t, 'r) cache = "string \<rightharpoonup> ('t, 'r) pyval"

text \<open>
  The dictionaries \<^verbatim>\<open>data\<close> as the \<^verbatim>\<open>try\<close> blocks build them, with query sets that
  have not been evaluated yet.
\<close>

datatype ('t, 'r) lazyval =
    LazyStorefront "('t, 'r) listing queryset" "('t, 'r) listing queryset"
      "('t, 'r) listing queryset"
  | LazyMetadata "row queryset" "row queryset" "row queryset" "row queryset" "row queryset"

text \<open>
  The calls a function makes to its collaborators, in the order it makes them:
  \<^verbatim>\<open>Profile.objects.get\<close>, \<^verbatim>\<open>Listing.objects.for_user\<close>, \<^verbatim>\<open>objects.all().values\<close> of
  a catalogue model, \<^verbatim>\<open>cache.get\<close> and \<^verbatim>\<open>cache.set\<close>. An event records that the call
  was made, whether it returned or raised.
\<close>

datatype event =
    ProfileGet string
  | ListingQuery string
  | CatalogQuery string
  | CacheGet string
  | CacheSet string

text \<open>
  A block of statements: its result or the exception raised, and the calls made.
  A raised exception skips the rest of the block.
\<close>

type_synonym 'a block = "(exn + 'a) \<times> event list"

definition query :: "event \<Rightarrow> exn + 'a \<Rightarrow> 'a block" where
  "query ev res = (res, [ev])"

definition done_with :: "'a \<Rightarrow> 'a block" where
  "done_with x = (Inr x, [])"

definition and_then :: "'a block \<Rightarrow> ('a \<Rightarrow> 'b block) \<Rightarrow> 'b block" where
  "and_then m f =
     (case m of
        (Inl e, evs) \<Rightarrow> (Inl e, evs)
      | (Inr x, evs) \<Rightarrow> (case f x of (res, evs') \<Rightarrow> (res, evs @ evs')))"

subsection \<open>Writing to the cache\<close>

text \<open>
  \<^verbatim>\<open>cache.set(key, data)\<close> serialises the dictionary before it stores it, and
  serialising a query set evaluates it: this is where the queries of the \<^verbatim>\<open>try\<close>
  blocks reach the database. \<open>fetch_then\<close> evaluates one query set and goes on with its
  rows; \<open>pickle\<close> evaluates the query sets of a dictionary in the order of its items,
  which is the order in which lines 79 to 83 and 107 to 116 write them, and the first
  fault ends it.
\<close>

definition fetch_then :: "'a queryset \<Rightarrow> ('a list \<Rightarrow> exn + 'b) \<Rightarrow> exn + 'b" where
  "fetch_then q f = (case q of Inl e \<Rightarrow> Inl e | Inr rows \<Rightarrow> f rows)"

fun pickle :: "('t, 'r) lazyval \<Rightarrow> exn + ('t, 'r) pyval" where
  "pickle (LazyStorefront featured_listings recent_listings most_popular_listings) =
     fetch_then featured_listings (\<lambda>fs.
     fetch_then recent_listings (\<lambda>rs.
     fetch_then most_popular_listings (\<lambda>ms.
     Inr (Storefront fs rs ms))))"
| "pickle (LazyMetadata cs ls ags cts ins) =
     fetch_then cs (\<lambda>cs'.
     fetch_then ls (\<lambda>ls'.
     fetch_then ags (\<lambda>ags'.
     fetch_then cts (\<lambda>cts'.
     fetch_then ins (\<lambda>ins'.
     Inr (Metadata cs' ls' ags' cts' ins'))))))"

text \<open>
  The call \<^verbatim>\<open>cache.set(key, data)\<close>: the evaluated dictionary and the cache that holds
  it under the key, or the fault of an evaluation, which leaves nothing stored. The cache
  service itself is taken to answer every call.
\<close>

definition cache_set ::
  "string \<Rightarrow> ('t, 'r) lazyval \<Rightarrow> ('t, 'r) cache \<Rightarrow> (('t, 'r) pyval \<times> ('t, 'r) cache) block" where
  "cache_set key data cache =
     query (CacheSet key)
       (case pickle data of
          Inl e \<Rightarrow> Inl e
        | Inr stored \<Rightarrow> Inr (stored, cache(key \<mapsto> stored)))"

subsection \<open>get\_storefront\<close>

text \<open>
  Lines 54 to 60: the loop \<^verbatim>\<open>for i in user.organizations.all(): orgs += '%s_' % i.title\<close>
  and the key \<^verbatim>\<open>'storefront:%s:%s' % (orgs_key, access_control_key)\<close>.
\<close>

definition storefront_key :: "profile \<Rightarrow> string" where
  "storefront_key user =
     (let orgs = foldl (\<lambda>orgs title. orgs @ title @ ''_'') [] (organization_titles user);
          orgs_key = make_keysafe orgs;
          access_control_key = make_keysafe (access_control_title user)
      in ''storefront:'' @ orgs_key @ '':'' @ access_control_key)"

text \<open>
  Lines 65 to 83, the body of the \<^verbatim>\<open>try\<close> block up to the dictionary: three calls of
  \<^verbatim>\<open>for_user(username)\<close>, each result filtered, ordered and sliced. The
  \<^verbatim>\<open>filter()\<close> without arguments of lines 71 and 76 keeps every row.
\<close>

definition storefront_queries ::
  "('t::linorder, 'r::linorder) storage \<Rightarrow> string \<Rightarrow> ('t, 'r) lazyval block" where
  "storefront_queries db uname =
     and_then (query (ListingQuery uname) (for_user db 0 uname)) (\<lambda>q1.
     and_then (query (ListingQuery uname) (for_user db 1 uname)) (\<lambda>q2.
     and_then (query (ListingQuery uname) (for_user db 2 uname)) (\<lambda>q3.
     done_with (LazyStorefront
       (slice_to 12 (filter_by is_featured q1))
       (slice_to 24 (filter_by (\<lambda>l. True) (order_by approved_date q2)))
       (slice_to 36 (filter_by (\<lambda>l. True) (order_by avg_rate q3)))))))"

text \<open>
  The result of a call: the value returned (\<open>Inr\<close>) or the exception that leaves the
  function (\<open>Inl\<close>), the cache afterwards, and the calls made.
\<close>

type_synonym ('t, 'r) outcome = "(exn + ('t, 'r) pyval) \<times> ('t, 'r) cache \<times> event list"

text \<open>
  Lines 53 to 88. The profile lookup and the cache read stand before the \<^verbatim>\<open>try\<close>
  block; the block is the three queries followed by \<^verbatim>\<open>cache.set\<close>, and the handler
  turns any exception of the block into the error dictionary.
\<close>

definition get_storefront ::
  "('t::linorder, 'r::linorder) storage \<Rightarrow> ('t, 'r) cache \<Rightarrow> string \<Rightarrow> ('t, 'r) outcome" where
  "get_storefront db cache uname =
     (case profiles db uname of
        None \<Rightarrow>
          (Inl (DoesNotExist ''Profile matching query does not exist.''), cache,
           [ProfileGet uname])
      | Some user \<Rightarrow>
          (let key = storefront_key user in
           case cache key of
             Some data \<Rightarrow> (Inr data, cache, [ProfileGet uname, CacheGet key])
           | None \<Rightarrow>
               (case and_then (storefront_queries db uname)
                       (\<lambda>data. cache_set key data cache) of
                  (Inr (data, cache'), evs) \<Rightarrow>
                    (Inr data, cache', [ProfileGet uname, CacheGet key] @ evs)
                | (Inl e, evs) \<Rightarrow>
                    (Inr (ErrorDict (''Error getting storefront: '' @ exn_str e)), cache,
                     [ProfileGet uname, CacheGet key] @ evs))))"

subsection \<open>get\_metadata\<close>

text \<open>
  Lines 106 to 116, the body of the \<^verbatim>\<open>try\<close> block up to \<^verbatim>\<open>cache.set\<close>: five query
  sets \<^verbatim>\<open>objects.all().values(...)\<close> are built, none is evaluated.
\<close>

definition metadata_queries :: "('t, 'r) storage \<Rightarrow> ('t, 'r) lazyval block" where
  "metadata_queries db =
     and_then (query (CatalogQuery ''Category'')
       (Inr (values_qs [''title'', ''description''] (category_rows db)))) (\<lambda>cs.
     and_then (query (CatalogQuery ''ListingType'')
       (Inr (values_qs [''title'', ''description''] (listing_type_rows db)))) (\<lambda>ls.
     and_then (query (CatalogQuery ''Agency'')
       (Inr (values_qs [''title'', ''short_name'', ''icon_url''] (agency_rows db)))) (\<lambda>ags.
     and_then (query (CatalogQuery ''ContactType'')
       (Inr (values_qs [''name'', ''required''] (contact_type_rows db)))) (\<lambda>cts.
     and_then (query (CatalogQuery ''Intent'')
       (Inr (values_qs [''action'', ''media_type'', ''label'', ''icon''] (intent_rows db)))) (\<lambda>ins.
     done_with (LazyMetadata cs ls ags cts ins))))))"

text \<open>Lines 102 to 121.\<close>

definition get_metadata :: "('t, 'r) storage \<Rightarrow> ('t, 'r) cache \<Rightarrow> ('t, 'r) outcome" where
  "get_metadata db cache =
     (let key = ''metadata'' in
      case cache key of
        Some data \<Rightarrow> (Inr data, cache, [CacheGet key])
      | None \<Rightarrow>
          (case and_then (metadata_queries db) (\<lambda>data. cache_set key data cache) of
             (Inr (data, cache'), evs) \<Rightarrow> (Inr data, cache', [CacheGet key] @ evs)
           | (Inl e, evs) \<Rightarrow>
               (Inr (ErrorDict (''Error getting metadata: '' @ exn_str e)), cache,
                [CacheGet key] @ evs)))"

text \<open>The three parts of an outcome.\<close>

definition returned :: "('t, 'r) outcome \<Rightarrow> exn + ('t, 'r) pyval" where
  "returned out = fst out"

definition cache_after :: "('t, 'r) outcome \<Rightarrow> ('t, 'r) cache" where
  "cache_after out = fst (snd out)"

definition accesses :: "('t, 'r) outcome \<Rightarrow> event list" where
  "accesses out = snd (snd out)"


section \<open>Notification engine\<close>

text \<open>
  The notification views and their model access are not among the source files; only
  their tests (api/notification/tests/test\_api\_notification.py) are. Every definition of
  this section is therefore written from the specification (sections 3, 4.5, 6 and 7),
  and says so.
\<close>

subsection \<open>Timestamps and their rendering\<close>

text \<open>
  Modelled from the spec: the timestamp type of the missing notification model. A
  timestamp is a UTC date and time to the microsecond; two timestamps compare field by
  field, from the year down.
\<close>

record timestamp =
  ts_year :: nat
  ts_month :: nat
  ts_day :: nat
  ts_hour :: nat
  ts_minute :: nat
  ts_second :: nat
  ts_microsecond :: nat

definition ts_key :: "timestamp \<Rightarrow> nat \<times> nat \<times> nat \<times> nat \<times> nat \<times> nat \<times> nat" where
  "ts_key t =
     (ts_year t, ts_month t, ts_day t, ts_hour t, ts_minute t, ts_second t, ts_microsecond t)"

text \<open>
  Modelled from the spec: the missing serializer's rendering of a timestamp, "ISO-8601
  (format YYYY-MM-DDTHH:MM:SS.ffffffZ)": every field in decimal, zero-padded to its width.
\<close>

definition digit :: "nat \<Rightarrow> char" where
  "digit d = ascii_digits ! (d mod 10)"

definition digits2 :: "nat \<Rightarrow> string" where
  "digits2 k = [digit (k div 10), digit k]"

definition digits4 :: "nat \<Rightarrow> string" where
  "digits4 k = [digit (k div 1000), digit (k div 100), digit (k div 10), digit k]"

definition digits6 :: "nat \<Rightarrow> string" where
  "digits6 k = [digit (k div 100000), digit (k div 10000), digit (k div 1000),
                digit (k div 100), digit (k div 10), digit k]"

definition render_timestamp :: "timestamp \<Rightarrow> string" where
  "render_timestamp t =
     digits4 (ts_year t) @ ''-'' @ digits2 (ts_month t) @ ''-'' @ digits2 (ts_day t) @ ''T''
     @ digits2 (ts_hour t) @ '':'' @ digits2 (ts_minute t) @ '':'' @ digits2 (ts_second t)
     @ ''.'' @ digits6 (ts_microsecond t) @ ''Z''"

text \<open>
  Modelled from the spec: what it is for a string to have the format
  \<open>YYYY-MM-DDTHH:MM:SS.ffffffZ\<close>. The letters \<open>Y M D H S f\<close> of the pattern stand for
  one decimal digit each; every other character of the pattern stands for itself.
\<close>

fun matches_pattern :: "string \<Rightarrow> string \<Rightarrow> bool" where
  "matches_pattern [] [] = True"
| "matches_pattern (p # ps) (c # cs) =
     ((if p \<in> set ''YMDHSf'' then c \<in> set ascii_digits else c = p) \<and> matches_pattern ps cs)"
| "matches_pattern _ _ = False"

definition iso_format :: "string \<Rightarrow> bool" where
  "iso_format s = matches_pattern ''YYYY-MM-DDTHH:MM:SS.ffffffZ'' s"

subsection \<open>Identities, notifications and the engine state\<close>

text \<open>
  Modelled from the spec: the identity of the missing permission subsystem, as far as
  the notification operations read it. \<open>elevated\<close> is the black-box check "has the
  elevated role"; \<open>owned_listings\<close> are the listings the user has authored or owns.
\<close>

record identity =
  username :: string
  elevated :: bool
  organizations :: "nat list"
  owned_listings :: "nat list"

text \<open>
  Modelled from the spec: the missing Notification model. The audience scope is one of
  all users, the stakeholders of one listing, or one organization.
\<close>

datatype audience = AllUsers | ListingStakeholders nat | OrganizationMembers nat

record notification =
  nid :: nat
  author :: string
  audience :: audience
  created_date :: timestamp
  message :: string
  expires_date :: timestamp

text \<open>
  Modelled from the spec: the state the missing NotificationEngine owns, the notifications
  and the set of dismissal markers (user, notification id).
\<close>

record engine =
  notifications :: "notification list"
  dismissals :: "(string \<times> nat) set"

text \<open>
  Modelled from the spec: the error taxonomy of section 7 and the status codes of
  section 6.
\<close>

datatype rejection = Unauthenticated | AccessDenied | LookupFailure

fun http_status :: "rejection \<Rightarrow> nat" where
  "http_status Unauthenticated = 401"
| "http_status AccessDenied = 403"
| "http_status LookupFailure = 404"

text \<open>
  Modelled from the spec: the record of the missing serializer, with the fields
  \<open>id, author, listing (nullable), created_date, message, expires_date\<close>.
\<close>

record rendered =
  r_id :: nat
  r_author :: string
  r_listing :: "nat option"
  r_created_date :: string
  r_message :: string
  r_expires_date :: string

definition listing_of :: "notification \<Rightarrow> nat option" where
  "listing_of n = (case audience n of ListingStakeholders l \<Rightarrow> Some l | _ \<Rightarrow> None)"

definition render_notification :: "notification \<Rightarrow> rendered" where
  "render_notification n =
     \<lparr>r_id = nid n, r_author = author n, r_listing = listing_of n,
      r_created_date = render_timestamp (created_date n), r_message = message n,
      r_expires_date = render_timestamp (expires_date n)\<rparr>"

subsection \<open>Pending and expired listings\<close>

text \<open>
  Modelled from the spec: the state of a notification relative to now, Pending when
  \<open>now < expires_date\<close> and Expired when \<open>now >= expires_date\<close>.
\<close>

definition pending :: "timestamp \<Rightarrow> notification \<Rightarrow> bool" where
  "pending now n = (ts_key now < ts_key (expires_date n))"

definition expired :: "timestamp \<Rightarrow> notification \<Rightarrow> bool" where
  "expired now n = (ts_key (expires_date n) \<le> ts_key now)"

definition narrowed :: "nat option \<Rightarrow> notification list \<Rightarrow> notification list" where
  "narrowed listing_filter ns =
     (case listing_filter of
        None \<Rightarrow> ns
      | Some l \<Rightarrow> filter (\<lambda>n. listing_of n = Some l) ns)"

text \<open>
  Modelled from the spec: the missing operations \<open>listPending\<close> and \<open>listExpired\<close>. A
  caller without identity is rejected as unauthenticated, a caller lacking the elevated
  role is rejected whatever the filter, and otherwise the answer (status 200) is all
  Pending (Expired) notifications, narrowed to a listing id when one is given.
\<close>

definition listPending ::
  "engine \<Rightarrow> identity option \<Rightarrow> nat option \<Rightarrow> timestamp \<Rightarrow> rejection + nat \<times> notification list" where
  "listPending eng caller listing_filter now =
     (case caller of
        None \<Rightarrow> Inl Unauthenticated
      | Some u \<Rightarrow>
          if \<not> elevated u then Inl AccessDenied
          else Inr (200, narrowed listing_filter (filter (pending now) (notifications eng))))"

definition listExpired ::
  "engine \<Rightarrow> identity option \<Rightarrow> nat option \<Rightarrow> timestamp \<Rightarrow> rejection + nat \<times> notification list" where
  "listExpired eng caller listing_filter now =
     (case caller of
        None \<Rightarrow> Inl Unauthenticated
      | Some u \<Rightarrow>
          if \<not> elevated u then Inl AccessDenied
          else Inr (200, narrowed listing_filter (filter (expired now) (notifications eng))))"

subsection \<open>The personal feed\<close>

text \<open>
  Modelled from the spec: the audience of a notification, "global + user's organizations
  + listings user has authored/owns".
\<close>

definition addressed_to :: "identity \<Rightarrow> notification \<Rightarrow> bool" where
  "addressed_to u n =
     (case audience n of
        AllUsers \<Rightarrow> True
      | OrganizationMembers org \<Rightarrow> org \<in> set (organizations u)
      | ListingStakeholders l \<Rightarrow> l \<in> set (owned_listings u))"

text \<open>
  Modelled from the spec: the order of the feed. "Ties on created\_date are broken by
  ascending id to guarantee a stable total order": the notifications are totally ordered
  by \<open>created_date\<close> and, among equal dates, by id; \<open>feed_key\<close> is the pair compared.
  The feed ordered by \<open>created_date\<close> lists them in this order, ascending, and the default
  feed and the feed ordered by \<open>-created_date\<close> list them in this order, descending.
  \<open>older_first a b\<close> says that \<open>a\<close> may stand before \<open>b\<close> in the ascending feed,
  \<open>newer_first a b\<close> that it may in the descending feed. The feed is put in order by
  insertion.
\<close>

definition feed_key ::
  "notification \<Rightarrow> (nat \<times> nat \<times> nat \<times> nat \<times> nat \<times> nat \<times> nat) \<times> nat" where
  "feed_key n = (ts_key (created_date n), nid n)"

definition older_first :: "notification \<Rightarrow> notification \<Rightarrow> bool" where
  "older_first a b = (feed_key a \<le> feed_key b)"

definition newer_first :: "notification \<Rightarrow> notification \<Rightarrow> bool" where
  "newer_first a b = (feed_key b \<le> feed_key a)"

fun insert_by :: "('a \<Rightarrow> 'a \<Rightarrow> bool) \<Rightarrow> 'a \<Rightarrow> 'a list \<Rightarrow> 'a list" where
  "insert_by precedes x [] = [x]"
| "insert_by precedes x (y # ys) =
     (if precedes x y then x # y # ys else y # insert_by precedes x ys)"

definition sort_by :: "('a \<Rightarrow> 'a \<Rightarrow> bool) \<Rightarrow> 'a list \<Rightarrow> 'a list" where
  "sort_by precedes xs = foldr (insert_by precedes) xs []"

text \<open>
  Modelled from the spec: the \<open>ordering\<close> parameter of the missing self-feed view,
  absent, \<open>-created_date\<close> or \<open>created_date\<close>.
\<close>

datatype ordering = DefaultOrdering | MinusCreatedDate | CreatedDate

fun feed_order :: "ordering \<Rightarrow> notification \<Rightarrow> notification \<Rightarrow> bool" where
  "feed_order DefaultOrdering = newer_first"
| "feed_order MinusCreatedDate = newer_first"
| "feed_order CreatedDate = older_first"

text \<open>
  Modelled from the spec: the missing operation \<open>listSelfFeed\<close>, all notifications
  addressed to the user's audience that the user has not dismissed, whether Pending or
  Expired, in the order asked for.
\<close>

definition visible_to :: "engine \<Rightarrow> identity \<Rightarrow> notification list" where
  "visible_to eng u =
     filter (\<lambda>n. addressed_to u n \<and> (username u, nid n) \<notin> dismissals eng) (notifications eng)"

definition listSelfFeed ::
  "engine \<Rightarrow> identity option \<Rightarrow> ordering \<Rightarrow> rejection + nat \<times> notification list" where
  "listSelfFeed eng caller ord =
     (case caller of
        None \<Rightarrow> Inl Unauthenticated
      | Some u \<Rightarrow> Inr (200, sort_by (feed_order ord) (visible_to eng u)))"

subsection \<open>Dismissal, creation and update\<close>

text \<open>
  Modelled from the spec: the missing operation \<open>dismiss\<close>. It records the marker
  (user, id), idempotently, whether the notification is Pending or Expired, and answers
  with the no-content signal (status 204); an id that names no notification is a
  lookup failure.
\<close>

definition dismiss :: "engine \<Rightarrow> identity option \<Rightarrow> nat \<Rightarrow> rejection + nat \<times> engine" where
  "dismiss eng caller i =
     (case caller of
        None \<Rightarrow> Inl Unauthenticated
      | Some u \<Rightarrow>
          if i \<notin> nid ` set (notifications eng) then Inl LookupFailure
          else Inr (204, eng\<lparr>dismissals := insert (username u, i) (dismissals eng)\<rparr>))"

text \<open>
  Modelled from the spec: the missing operation \<open>create\<close>. The actor must hold the
  elevated role; the record is persisted with \<open>created_date = now\<close> and a fresh id, and
  returned (status 201).
\<close>

definition fresh_id :: "notification list \<Rightarrow> nat" where
  "fresh_id ns = Suc (fold max (map nid ns) 0)"

definition create ::
  "engine \<Rightarrow> identity option \<Rightarrow> string \<Rightarrow> timestamp \<Rightarrow> audience \<Rightarrow> timestamp
     \<Rightarrow> rejection + nat \<times> notification \<times> engine" where
  "create eng actor text expires scope now =
     (case actor of
        None \<Rightarrow> Inl Unauthenticated
      | Some u \<Rightarrow>
          if \<not> elevated u then Inl AccessDenied
          else
            (let n = \<lparr>nid = fresh_id (notifications eng), author = username u, audience = scope,
                      created_date = now, message = text, expires_date = expires\<rparr>
             in Inr (201, n, eng\<lparr>notifications := notifications eng @ [n]\<rparr>)))"

text \<open>
  Modelled from the spec: the missing operation \<open>update\<close>. Any authenticated user may
  change the expiration and the message of an existing notification (status 200); an id
  that names no notification is a lookup failure.
\<close>

definition amend :: "timestamp option \<Rightarrow> string option \<Rightarrow> notification \<Rightarrow> notification" where
  "amend new_expires new_text n =
     n\<lparr>expires_date := (case new_expires of None \<Rightarrow> expires_date n | Some t \<Rightarrow> t),
       message := (case new_text of None \<Rightarrow> message n | Some m \<Rightarrow> m)\<rparr>"

definition update ::
  "engine \<Rightarrow> identity option \<Rightarrow> nat \<Rightarrow> timestamp option \<Rightarrow> string option
     \<Rightarrow> rejection + nat \<times> notification \<times> engine" where
  "update eng actor i new_expires new_text =
     (case actor of
        None \<Rightarrow> Inl Unauthenticated
      | Some u \<Rightarrow>
          (case find (\<lambda>n. nid n = i) (notifications eng) of
             None \<Rightarrow> Inl LookupFailure
           | Some n \<Rightarrow>
               Inr (200, amend new_expires new_text n,
                    eng\<lparr>notifications :=
                          map (\<lambda>m. if nid m = i then amend new_expires new_text m else m)
                            (notifications eng)\<rparr>)))"

text \<open>
  Modelled from the spec: the requests that change the engine state, and the state after
  a sequence of them. A rejected request leaves the state as it was. There is no request
  that removes a dismissal marker or a notification.
\<close>

datatype request =
    Dismiss "identity option" nat
  | Create "identity option" string timestamp audience timestamp
  | Update "identity option" nat "timestamp option" "string option"

fun serve :: "engine \<Rightarrow> request \<Rightarrow> engine" where
  "serve eng (Dismiss caller i) =
     (case dismiss eng caller i of Inl r \<Rightarrow> eng | Inr (s, eng') \<Rightarrow> eng')"
| "serve eng (Create actor text expires scope now) =
     (case create eng actor text expires scope now of
        Inl r \<Rightarrow> eng | Inr (s, n, eng') \<Rightarrow> eng')"
| "serve eng (Update actor i new_expires new_text) =
     (case update eng actor i new_expires new_text of
        Inl r \<Rightarrow> eng | Inr (s, n, eng') \<Rightarrow> eng')"

definition serve_all :: "engine \<Rightarrow> request list \<Rightarrow> engine" where
  "serve_all eng reqs = foldl serve eng reqs"

subsection \<open>Example data\<close>

definition example_profile :: profile where
  "example_profile =
     \<lparr>organization_titles = [''Ministry of Truth''], access_control_title = ''UNCLASSIFIED''\<rparr>"

definition example_listings :: "(nat, nat) listing list" where
  "example_listings =
     [\<lparr>listing_id = 1, is_featured = True, approved_date = 30, avg_rate = 5\<rparr>,
      \<lparr>listing_id = 2, is_featured = False, approved_date = 10, avg_rate = 4\<rparr>,
      \<lparr>listing_id = 3, is_featured = True, approved_date = 20, avg_rate = 1\<rparr>]"

definition example_cache :: "(nat, nat) cache" where
  "example_cache = [''metadata'' \<mapsto> Metadata [] [] [] [] []]"

definition reordered_profile :: profile where
  "reordered_profile =
     \<lparr>organization_titles = [''Ministry of Love'', ''Ministry of Truth''],
      access_control_title = ''UNCLASSIFIED''\<rparr>"

definition two_org_profile :: profile where
  "two_org_profile =
     \<lparr>organization_titles = [''Ministry of Truth'', ''Ministry of Love''],
      access_control_title = ''UNCLASSIFIED''\<rparr>"

definition example_storage :: "(nat, nat) storage" where
  "example_storage =
     \<lparr>profiles = [''wsmith'' \<mapsto> example_profile, ''julia'' \<mapsto> example_profile],
      for_user = (\<lambda>k u. Inr (Inr example_listings)),
      category_rows = Inr [[(''title'', Str ''Tools''), (''id'', Str ''1'')]],
      listing_type_rows = Inr [],
      agency_rows = Inr [],
      contact_type_rows = Inr [],
      intent_rows = Inr []\<rparr>"

text \<open>
  Three ways for the data source to fail: every call of \<open>for_user\<close> raises (and the
  agency table cannot be read); the second call of \<open>for_user\<close> raises; every call returns
  its query set and the second query set cannot be read when it is evaluated.
\<close>

definition faulty_storage :: "(nat, nat) storage" where
  "faulty_storage =
     example_storage
       \<lparr>for_user := (\<lambda>k u. Inl (UpstreamFault ''connection refused'')),
        agency_rows := Inl (UpstreamFault ''connection refused'')\<rparr>"

definition flaky_storage :: "(nat, nat) storage" where
  "flaky_storage =
     example_storage
       \<lparr>for_user := (\<lambda>k u. if k = 1 then Inl (UpstreamFault ''too many connections'')
                            else Inr (Inr example_listings))\<rparr>"

definition down_storage :: "(nat, nat) storage" where
  "down_storage =
     example_storage
       \<lparr>for_user := (\<lambda>k u. Inr (if k = 1 then Inl (UpstreamFault ''connection lost'')
                                 else Inr example_listings))\<rparr>"

definition example_bundle :: "(nat, nat) pyval" where
  "example_bundle =
     Storefront
       [\<lparr>listing_id = 1, is_featured = True, approved_date = 30, avg_rate = 5\<rparr>,
        \<lparr>listing_id = 3, is_featured = True, approved_date = 20, avg_rate = 1\<rparr>]
       [\<lparr>listing_id = 2, is_featured = False, approved_date = 10, avg_rate = 4\<rparr>,
        \<lparr>listing_id = 3, is_featured = True, approved_date = 20, avg_rate = 1\<rparr>,
        \<lparr>listing_id = 1, is_featured = True, approved_date = 30, avg_rate = 5\<rparr>]
       [\<lparr>listing_id = 3, is_featured = True, approved_date = 20, avg_rate = 1\<rparr>,
        \<lparr>listing_id = 2, is_featured = False, approved_date = 10, avg_rate = 4\<rparr>,
        \<lparr>listing_id = 1, is_featured = True, approved_date = 30, avg_rate = 5\<rparr>]"

definition order_storage :: "(nat, nat) storage" where
  "order_storage =
     example_storage
       \<lparr>profiles := [''winston'' \<mapsto> two_org_profile, ''julia'' \<mapsto> reordered_profile]\<rparr>"


subsection \<open>A notification scenario\<close>

text \<open>
  Modelled from the spec: the concrete scenarios of its section 8, on the engine above.
  Three notifications seen by the user wsmith, with the ids 1, 2 and 5 created in that
  order; notification 2 has expired at \<open>example_now\<close>, the other two are pending. The user
  jones lacks the elevated role.
\<close>

definition example_now :: timestamp where
  "example_now = \<lparr>ts_year = 2016, ts_month = 6, ts_day = 17, ts_hour = 6, ts_minute = 30,
     ts_second = 0, ts_microsecond = 0\<rparr>"

definition example_future :: timestamp where
  "example_future = \<lparr>ts_year = 2016, ts_month = 9, ts_day = 1, ts_hour = 15, ts_minute = 45,
     ts_second = 55, ts_microsecond = 322421\<rparr>"

definition example_past :: timestamp where
  "example_past = \<lparr>ts_year = 2015, ts_month = 12, ts_day = 31, ts_hour = 23, ts_minute = 59,
     ts_second = 59, ts_microsecond = 7\<rparr>"

definition wsmith :: identity where
  "wsmith = \<lparr>username = ''wsmith'', elevated = True, organizations = [1], owned_listings = [1]\<rparr>"

definition jones :: identity where
  "jones = \<lparr>username = ''jones'', elevated = False, organizations = [2], owned_listings = []\<rparr>"

definition bigbrother :: identity where
  "bigbrother =
     \<lparr>username = ''bigbrother'', elevated = True, organizations = [1], owned_listings = []\<rparr>"

definition note1 :: notification where
  "note1 = \<lparr>nid = 1, author = ''wsmith'', audience = ListingStakeholders 1,
     created_date = example_past, message = ''first'', expires_date = example_future\<rparr>"

definition note2 :: notification where
  "note2 = \<lparr>nid = 2, author = ''wsmith'', audience = AllUsers,
     created_date = example_past\<lparr>ts_microsecond := 8\<rparr>, message = ''second'',
     expires_date = example_past\<rparr>"

definition note5 :: notification where
  "note5 = \<lparr>nid = 5, author = ''julia'', audience = AllUsers,
     created_date = example_now, message = ''fifth'', expires_date = example_future\<rparr>"

definition example_engine :: engine where
  "example_engine = \<lparr>notifications = [note1, note2, note5], dismissals = {}\<rparr>"

text \<open>
  The engine after wsmith has dismissed notification 5, and the notification that
  bigbrother creates at \<open>example_now\<close>.
\<close>

definition dismissed_engine :: engine where
  "dismissed_engine = example_engine\<lparr>dismissals := {(''wsmith'', 5)}\<rparr>"

definition created_note :: notification where
  "created_note = \<lparr>nid = 6, author = ''bigbrother'', audience = AllUsers,
     created_date = example_now, message = ''a simple test'', expires_date = example_future\<rparr>"

text \<open>Two notifications created at the same instant.\<close>

definition tie_a :: notification where
  "tie_a = \<lparr>nid = 1, author = ''wsmith'', audience = AllUsers,
     created_date = example_now, message = ''a'', expires_date = example_future\<rparr>"

definition tie_b :: notification where
  "tie_b = \<lparr>nid = 2, author = ''wsmith'', audience = AllUsers,
     created_date = example_now, message = ''b'', expires_date = example_future\<rparr>"

definition tie_engine :: engine where
  "tie_engine = \<lparr>notifications = [tie_a, tie_b], dismissals = {}\<rparr>"
section \<open>Properties of the cache-aside access\<close>

subsection \<open>Blocks and query sets\<close>

lemma and_then_Inr: "and_then (query ev (Inr x)) f = (case f x of (res, evs) \<Rightarrow> (res, ev # evs))"
  by (simp add: and_then_def query_def split: prod.splits)

lemma and_then_Inl: "and_then (query ev (Inl e)) f = (Inl e, [ev])"
  by (simp add: and_then_def query_def)

lemma and_then_pair_Inr:
  "and_then (Inr x, evs) f = (case f x of (res, evs') \<Rightarrow> (res, evs @ evs'))"
  by (simp add: and_then_def)

lemma and_then_pair_Inl: "and_then (Inl e, evs) f = (Inl e, evs)"
  by (simp add: and_then_def)

lemmas queryset_defs = refine_def filter_by_def order_by_def slice_to_def values_qs_def
  fetch_then_def

lemma outcome_cases:
  fixes x :: "exn + 'a queryset"
  obtains (raised) e where "x = Inl e"
    | (unreadable) e where "x = Inr (Inl e)"
    | (readable) rows where "x = Inr (Inr rows)"
proof (cases x)
  case (Inl e)
  then show ?thesis by (rule raised)
next
  case (Inr q)
  then show ?thesis by (cases q) (auto intro: unreadable readable)
qed

text \<open>The \<^verbatim>\<open>try\<close> block of get\_storefront, by the outcome of its calls.\<close>

lemma storefront_block_ok:
  assumes "for_user db 0 uname = Inr (Inr visible1)"
    and "for_user db 1 uname = Inr (Inr visible2)"
    and "for_user db 2 uname = Inr (Inr visible3)"
  shows "and_then (storefront_queries db uname) (\<lambda>data. cache_set key data cache) =
     (Inr (Storefront (take 12 (filter is_featured visible1))
             (take 24 (sort_key approved_date visible2))
             (take 36 (sort_key avg_rate visible3)),
           cache(key \<mapsto> Storefront (take 12 (filter is_featured visible1))
             (take 24 (sort_key approved_date visible2))
             (take 36 (sort_key avg_rate visible3)))),
      [ListingQuery uname, ListingQuery uname, ListingQuery uname, CacheSet key])"
  using assms
  by (simp add: storefront_queries_def and_then_Inr done_with_def and_then_pair_Inr
      cache_set_def query_def queryset_defs)

lemma storefront_block_built:
  assumes "for_user db 0 uname = Inr q1"
    and "for_user db 1 uname = Inr q2"
    and "for_user db 2 uname = Inr q3"
  shows "and_then (storefront_queries db uname) (\<lambda>data. cache_set key data cache) =
      (case pickle (LazyStorefront (slice_to 12 (filter_by is_featured q1))
              (slice_to 24 (filter_by (\<lambda>l. True) (order_by approved_date q2)))
              (slice_to 36 (filter_by (\<lambda>l. True) (order_by avg_rate q3)))) of
         Inl e \<Rightarrow> Inl e
       | Inr stored \<Rightarrow> Inr (stored, cache(key \<mapsto> stored)),
       [ListingQuery uname, ListingQuery uname, ListingQuery uname, CacheSet key])"
  using assms
  by (simp add: storefront_queries_def and_then_Inr done_with_def and_then_pair_Inr
      cache_set_def query_def)

lemma below_three:
  assumes "\<forall>j<k. P j"
  shows "0 < k \<Longrightarrow> P 0" and "1 < k \<Longrightarrow> P 1" and "2 < k \<Longrightarrow> P 2"
  using assms by simp_all

lemma storefront_block_call_fault:
  assumes "k < 3" and "for_user db k uname = Inl e"
    and "\<forall>j<k. \<exists>q. for_user db j uname = Inr q"
  shows "and_then (storefront_queries db uname) (\<lambda>data. cache_set key data cache) =
     (Inl e, replicate (Suc k) (ListingQuery uname))"
proof -
  from assms(1) consider "k = 0" | "k = 1" | "k = 2" by linarith
  then show ?thesis
  proof cases
    case 1
    with assms(2) show ?thesis
      by (simp add: storefront_queries_def and_then_Inl and_then_pair_Inl)
  next
    case 2
    with below_three(1) [OF assms(3)] obtain q0 where "for_user db 0 uname = Inr q0"
      by auto
    with 2 assms(2) show ?thesis
      by (simp add: storefront_queries_def and_then_Inr and_then_Inl and_then_pair_Inl)
  next
    case 3
    with below_three(1,2) [OF assms(3)] obtain q0 q1 where
      "for_user db 0 uname = Inr q0" "for_user db 1 uname = Inr q1"
      by auto
    with 3 assms(2) show ?thesis
      by (simp add: storefront_queries_def and_then_Inr and_then_Inl and_then_pair_Inl
          numeral_2_eq_2)
  qed
qed

lemma storefront_block_eval_fault:
  assumes "\<forall>j<3. \<exists>q. for_user db j uname = Inr q"
    and "k < 3" and "for_user db k uname = Inr (Inl e)"
    and "\<forall>j<k. \<exists>rows. for_user db j uname = Inr (Inr rows)"
  shows "and_then (storefront_queries db uname) (\<lambda>data. cache_set key data cache) =
     (Inl e, [ListingQuery uname, ListingQuery uname, ListingQuery uname, CacheSet key])"
proof -
  from below_three [OF assms(1)] obtain q0 q1 q2 where
    q: "for_user db 0 uname = Inr q0" "for_user db 1 uname = Inr q1"
       "for_user db 2 uname = Inr q2"
    by auto
  note b = storefront_block_built [OF q, of key cache]
  from assms(2) consider "k = 0" | "k = 1" | "k = 2" by linarith
  then show ?thesis
  proof cases
    case 1
    with assms(3) q have "q0 = Inl e" by simp
    then show ?thesis unfolding b by (simp add: queryset_defs)
  next
    case 2
    with assms(3) q have "q1 = Inl e" by simp
    moreover from 2 below_three(1) [OF assms(4)] q obtain r0 where "q0 = Inr r0" by auto
    ultimately show ?thesis unfolding b by (simp add: queryset_defs)
  next
    case 3
    with assms(3) q have "q2 = Inl e" by simp
    moreover from 3 below_three(1,2) [OF assms(4)] q obtain r0 r1 where
      "q0 = Inr r0" "q1 = Inr r1"
      by auto
    ultimately show ?thesis unfolding b by (simp add: queryset_defs)
  qed
qed

lemma all_below_one: "(\<forall>j<1. P j) = P (0::nat)"
  by auto

lemma all_below_two: "(\<forall>j<2. P j) = (P 0 \<and> P (1::nat))"
proof -
  have "j < 2 \<longleftrightarrow> j = 0 \<or> j = 1" for j :: nat by linarith
  then show ?thesis by auto
qed

lemma all_below_three: "(\<forall>j<3. P j) = (P 0 \<and> P 1 \<and> P (2::nat))"
proof -
  have "j < 3 \<longleftrightarrow> j = 0 \<or> j = 1 \<or> j = 2" for j :: nat by linarith
  then show ?thesis by auto
qed

text \<open>
  Whatever the data source does, either its three query sets are readable, or the block
  raises one of the faults of the data source after a first listing query.
\<close>

lemma storefront_block_cases:
  fixes db :: "('t::linorder, 'r::linorder) storage"
  shows "(\<exists>visible1 visible2 visible3.
        for_user db 0 uname = Inr (Inr visible1) \<and> for_user db 1 uname = Inr (Inr visible2)
        \<and> for_user db 2 uname = Inr (Inr visible3))
   \<or> (\<exists>e evs k. k < 3
        \<and> (for_user db k uname = Inl e \<or> for_user db k uname = Inr (Inl e))
        \<and> and_then (storefront_queries db uname) (\<lambda>data. cache_set key data cache) =
            (Inl e, ListingQuery uname # evs))"
    (is "?ok \<or> ?fault")
proof -
  let ?block = "and_then (storefront_queries db uname) (\<lambda>data. cache_set key data cache)"
  have call: "?fault" if "k < 3" "for_user db k uname = Inl e"
    "\<forall>j<k. \<exists>q. for_user db j uname = Inr q" for k e
  proof -
    from that have "?block = (Inl e, ListingQuery uname # replicate k (ListingQuery uname))"
      by (simp add: storefront_block_call_fault)
    with that(1,2) show ?thesis by (intro exI conjI) (assumption, rule disjI1, assumption+)
  qed
  have eval: "?fault" if "\<forall>j<3. \<exists>q. for_user db j uname = Inr q"
    "k < 3" "for_user db k uname = Inr (Inl e)"
    "\<forall>j<k. \<exists>rows. for_user db j uname = Inr (Inr rows)" for k e
  proof -
    from that have "?block =
        (Inl e, [ListingQuery uname, ListingQuery uname, ListingQuery uname, CacheSet key])"
      by (rule storefront_block_eval_fault)
    with that(2,3) show ?thesis by (intro exI conjI) (assumption, rule disjI2, assumption+)
  qed
  show ?thesis
  proof (cases "for_user db 0 uname")
    case (Inl e)
    then have ?fault by (intro call [of 0 e]) simp_all
    then show ?thesis ..
  next
    case q0: (Inr q0)
    show ?thesis
    proof (cases "for_user db 1 uname")
      case (Inl e)
      with q0 have ?fault by (intro call [of 1 e]) (simp_all add: all_below_one)
      then show ?thesis ..
    next
      case q1: (Inr q1)
      show ?thesis
      proof (cases "for_user db 2 uname")
        case (Inl e)
        with q0 q1 have ?fault by (intro call [of 2 e]) (simp_all add: all_below_two)
        then show ?thesis ..
      next
        case q2: (Inr q2)
        from q0 q1 q2 have built: "\<forall>j<3. \<exists>q. for_user db j uname = Inr q"
          by (simp add: all_below_three)
        show ?thesis
        proof (cases q0)
          case (Inl e)
          with q0 have ?fault by (intro eval [of 0 e] built) simp_all
          then show ?thesis ..
        next
          case r0: (Inr r0)
          show ?thesis
          proof (cases q1)
            case (Inl e)
            with q0 r0 q1 have ?fault
              by (intro eval [of 1 e] built) (simp_all add: all_below_one)
            then show ?thesis ..
          next
            case r1: (Inr r1)
            show ?thesis
            proof (cases q2)
              case (Inl e)
              with q0 r0 q1 r1 q2 have ?fault
                by (intro eval [of 2 e] built) (simp_all add: all_below_two)
              then show ?thesis ..
            next
              case (Inr r2)
              with q0 r0 q1 r1 q2 have ?ok by simp
              then show ?thesis ..
            qed
          qed
        qed
      qed
    qed
  qed
qed

subsection \<open>The first elements of a sorted list\<close>

lemma take_sort_key_sorted: "sorted (map f (take n (sort_key f xs)))"
  by (simp add: take_map [symmetric] sorted_wrt_take)

lemma take_sort_key_length: "length (take n (sort_key f xs)) = min n (length xs)"
  by (simp add: min.commute)

lemma take_sort_key_mset: "mset (take n (sort_key f xs)) \<subseteq># mset xs"
proof -
  have "mset (take n (sort_key f xs)) \<subseteq># mset (take n (sort_key f xs)) + mset (drop n (sort_key f xs))"
    by simp
  also have "\<dots> = mset (sort_key f xs)"
    by (simp add: union_code)
  finally show ?thesis by simp
qed

lemma take_sort_key_least:
  assumes "x \<in> set (take n (sort_key f xs))"
    and "y \<in># mset xs - mset (take n (sort_key f xs))"
  shows "f x \<le> f y"
proof -
  let ?s = "sort_key f xs"
  have split: "?s = take n ?s @ drop n ?s" by simp
  have "mset xs = mset (take n ?s) + mset (drop n ?s)"
    by (metis append_take_drop_id mset_append mset_sort)
  then have "mset xs - mset (take n ?s) = mset (drop n ?s)" by simp
  with assms(2) have y: "y \<in> set (drop n ?s)" by simp
  have "sorted (map f (take n ?s @ drop n ?s))" by simp
  then have "\<forall>a\<in>set (map f (take n ?s)). \<forall>b\<in>set (map f (drop n ?s)). a \<le> b"
    unfolding map_append sorted_append by blast
  with assms(1) y show ?thesis by auto
qed

lemma take_sort_key_least_all:
  "\<forall>x\<in>set (take n (sort_key f xs)). \<forall>y\<in>#mset xs - mset (take n (sort_key f xs)). f x \<le> f y"
proof (intro ballI)
  fix x y
  assume "x \<in> set (take n (sort_key f xs))" and "y \<in># mset xs - mset (take n (sort_key f xs))"
  then show "f x \<le> f y" by (rule take_sort_key_least)
qed

subsection \<open>The paths of get\_storefront\<close>

lemma get_storefront_miss_eq:
  assumes "profiles db uname = Some user"
    and "cache (storefront_key user) = None"
    and "for_user db 0 uname = Inr (Inr visible1)"
    and "for_user db 1 uname = Inr (Inr visible2)"
    and "for_user db 2 uname = Inr (Inr visible3)"
  shows "get_storefront db cache uname =
     (Inr (Storefront (take 12 (filter is_featured visible1))
            (take 24 (sort_key approved_date visible2))
            (take 36 (sort_key avg_rate visible3))),
      cache(storefront_key user \<mapsto>
        Storefront (take 12 (filter is_featured visible1))
            (take 24 (sort_key approved_date visible2))
            (take 36 (sort_key avg_rate visible3))),
      [ProfileGet uname, CacheGet (storefront_key user), ListingQuery uname,
       ListingQuery uname, ListingQuery uname, CacheSet (storefront_key user)])"
  using assms(1,2)
  by (simp add: get_storefront_def Let_def storefront_block_ok [OF assms(3,4,5)])

lemma get_storefront_hit_eq:
  assumes "profiles db uname = Some user" and "cache (storefront_key user) = Some data"
  shows "get_storefront db cache uname =
     (Inr data, cache, [ProfileGet uname, CacheGet (storefront_key user)])"
  using assms by (simp add: get_storefront_def Let_def)

lemma get_storefront_block_fault_eq:
  assumes "profiles db uname = Some user" and "cache (storefront_key user) = None"
    and "and_then (storefront_queries db uname)
           (\<lambda>data. cache_set (storefront_key user) data cache) = (Inl e, evs)"
  shows "get_storefront db cache uname =
     (Inr (ErrorDict (''Error getting storefront: '' @ exn_str e)), cache,
      ProfileGet uname # CacheGet (storefront_key user) # evs)"
  using assms by (simp add: get_storefront_def Let_def)

lemma get_storefront_call_fault_eq:
  assumes "profiles db uname = Some user" and "cache (storefront_key user) = None"
    and "k < 3" and "for_user db k uname = Inl e"
    and "\<forall>j<k. \<exists>q. for_user db j uname = Inr q"
  shows "get_storefront db cache uname =
     (Inr (ErrorDict (''Error getting storefront: '' @ exn_str e)), cache,
      [ProfileGet uname, CacheGet (storefront_key user)]
        @ replicate (Suc k) (ListingQuery uname))"
proof -
  have "and_then (storefront_queries db uname)
           (\<lambda>data. cache_set (storefront_key user) data cache)
        = (Inl e, replicate (Suc k) (ListingQuery uname))"
    using assms(3,4,5) by (rule storefront_block_call_fault)
  with assms(1,2) show ?thesis by (simp add: get_storefront_def Let_def)
qed

lemma get_storefront_eval_fault_eq:
  assumes "profiles db uname = Some user" and "cache (storefront_key user) = None"
    and "\<forall>j<3. \<exists>q. for_user db j uname = Inr q"
    and "k < 3" and "for_user db k uname = Inr (Inl e)"
    and "\<forall>j<k. \<exists>rows. for_user db j uname = Inr (Inr rows)"
  shows "get_storefront db cache uname =
     (Inr (ErrorDict (''Error getting storefront: '' @ exn_str e)), cache,
      [ProfileGet uname, CacheGet (storefront_key user), ListingQuery uname,
       ListingQuery uname, ListingQuery uname, CacheSet (storefront_key user)])"
proof -
  have "and_then (storefront_queries db uname)
           (\<lambda>data. cache_set (storefront_key user) data cache)
        = (Inl e, [ListingQuery uname, ListingQuery uname, ListingQuery uname,
             CacheSet (storefront_key user)])"
    using assms(3,4,5,6) by (rule storefront_block_eval_fault)
  with assms(1,2) show ?thesis by (simp add: get_storefront_def Let_def)
qed

lemma get_storefront_no_profile_eq:
  assumes "profiles db uname = None"
  shows "get_storefront db cache uname =
     (Inl (DoesNotExist ''Profile matching query does not exist.''), cache, [ProfileGet uname])"
  using assms by (simp add: get_storefront_def)

text \<open>A miss ends in one of two ways.\<close>

lemma get_storefront_miss_cases:
  fixes db :: "('t::linorder, 'r::linorder) storage"
  assumes "profiles db uname = Some user" and "cache (storefront_key user) = None"
  obtains (readable) visible1 visible2 visible3 where
      "for_user db 0 uname = Inr (Inr visible1)" "for_user db 1 uname = Inr (Inr visible2)"
      "for_user db 2 uname = Inr (Inr visible3)"
    | (fault) e evs k where "k < 3"
      "for_user db k uname = Inl e \<or> for_user db k uname = Inr (Inl e)"
      "get_storefront db cache uname =
         (Inr (ErrorDict (''Error getting storefront: '' @ exn_str e)), cache,
          ProfileGet uname # CacheGet (storefront_key user) # ListingQuery uname # evs)"
proof -
  from storefront_block_cases [of db uname "storefront_key user" cache]
  consider (a) visible1 visible2 visible3 where
      "for_user db 0 uname = Inr (Inr visible1)" "for_user db 1 uname = Inr (Inr visible2)"
      "for_user db 2 uname = Inr (Inr visible3)"
    | (b) e evs k where "k < 3"
      "for_user db k uname = Inl e \<or> for_user db k uname = Inr (Inl e)"
      "and_then (storefront_queries db uname)
           (\<lambda>data. cache_set (storefront_key user) data cache)
         = (Inl e, ListingQuery uname # evs)"
    by blast
  then show thesis
  proof cases
    case a
    then show thesis by (rule readable)
  next
    case b
    from assms b(3) have "get_storefront db cache uname =
         (Inr (ErrorDict (''Error getting storefront: '' @ exn_str e)), cache,
          ProfileGet uname # CacheGet (storefront_key user) # ListingQuery uname # evs)"
      by (simp add: get_storefront_def Let_def)
    with b(1,2) show thesis by (rule fault)
  qed
qed

lemma get_storefront_miss_queries:
  fixes db :: "('t::linorder, 'r::linorder) storage"
  assumes "profiles db uname = Some user" and "cache (storefront_key user) = None"
  shows "ListingQuery uname \<in> set (accesses (get_storefront db cache uname))"
proof (rule get_storefront_miss_cases [where cache = cache, OF assms])
  fix visible1 visible2 visible3
  assume "for_user db 0 uname = Inr (Inr visible1)" "for_user db 1 uname = Inr (Inr visible2)"
    "for_user db 2 uname = Inr (Inr visible3)"
  with assms show ?thesis by (simp add: get_storefront_miss_eq accesses_def)
next
  fix e evs k
  assume "get_storefront db cache uname =
            (Inr (ErrorDict (''Error getting storefront: '' @ exn_str e)), cache,
             ProfileGet uname # CacheGet (storefront_key user) # ListingQuery uname # evs)"
  then show ?thesis by (simp add: accesses_def)
qed

lemma stored_after_bundle:
  fixes db :: "('t::linorder, 'r::linorder) storage"
  assumes "get_storefront db cache uname = (Inr (Storefront f r m), cache', evs)"
    and "profiles db uname = Some user"
  shows "cache' (storefront_key user) = Some (Storefront f r m)"
proof (cases "cache (storefront_key user)")
  case (Some data)
  with assms show ?thesis by (simp add: get_storefront_hit_eq)
next
  case None
  show ?thesis
  proof (rule get_storefront_miss_cases [where cache = cache, OF assms(2) None])
    fix visible1 visible2 visible3
    assume "for_user db 0 uname = Inr (Inr visible1)" "for_user db 1 uname = Inr (Inr visible2)"
      "for_user db 2 uname = Inr (Inr visible3)"
    with None assms show ?thesis by (auto simp add: get_storefront_miss_eq)
  next
    fix e evs' k
    assume "get_storefront db cache uname =
            (Inr (ErrorDict (''Error getting storefront: '' @ exn_str e)), cache,
             ProfileGet uname # CacheGet (storefront_key user) # ListingQuery uname # evs')"
    with assms show ?thesis by simp
  qed
qed

lemma get_storefront_accesses_key:
  fixes db :: "('t::linorder, 'r::linorder) storage"
  assumes "profiles db uname = Some user"
  shows "\<exists>evs. accesses (get_storefront db cache uname) =
     ProfileGet uname # CacheGet (storefront_key user) # evs"
proof (cases "cache (storefront_key user)")
  case (Some data)
  with assms show ?thesis by (simp add: get_storefront_hit_eq accesses_def)
next
  case None
  show ?thesis
  proof (rule get_storefront_miss_cases [where cache = cache, OF assms None])
    fix visible1 visible2 visible3
    assume "for_user db 0 uname = Inr (Inr visible1)" "for_user db 1 uname = Inr (Inr visible2)"
      "for_user db 2 uname = Inr (Inr visible3)"
    with None assms show ?thesis by (simp add: get_storefront_miss_eq accesses_def)
  next
    fix e evs' k
    assume "get_storefront db cache uname =
            (Inr (ErrorDict (''Error getting storefront: '' @ exn_str e)), cache,
             ProfileGet uname # CacheGet (storefront_key user) # ListingQuery uname # evs')"
    then show ?thesis by (simp add: accesses_def)
  qed
qed

lemma get_storefront_returns:
  fixes db :: "('t::linorder, 'r::linorder) storage"
  assumes "profiles db uname = Some user"
  shows "\<exists>v. returned (get_storefront db cache uname) = Inr v"
proof (cases "cache (storefront_key user)")
  case (Some data)
  with assms show ?thesis by (simp add: get_storefront_hit_eq returned_def)
next
  case None
  show ?thesis
  proof (rule get_storefront_miss_cases [where cache = cache, OF assms None])
    fix visible1 visible2 visible3
    assume "for_user db 0 uname = Inr (Inr visible1)" "for_user db 1 uname = Inr (Inr visible2)"
      "for_user db 2 uname = Inr (Inr visible3)"
    with None assms show ?thesis by (simp add: get_storefront_miss_eq returned_def)
  next
    fix e evs' k
    assume "get_storefront db cache uname =
            (Inr (ErrorDict (''Error getting storefront: '' @ exn_str e)), cache,
             ProfileGet uname # CacheGet (storefront_key user) # ListingQuery uname # evs')"
    then show ?thesis by (simp add: returned_def)
  qed
qed

subsection \<open>The paths of get\_metadata\<close>

lemma metadata_block_built:
  "and_then (metadata_queries db) (\<lambda>data. cache_set key data cache) =
     (case pickle (LazyMetadata
            (values_qs [''title'', ''description''] (category_rows db))
            (values_qs [''title'', ''description''] (listing_type_rows db))
            (values_qs [''title'', ''short_name'', ''icon_url''] (agency_rows db))
            (values_qs [''name'', ''required''] (contact_type_rows db))
            (values_qs [''action'', ''media_type'', ''label'', ''icon''] (intent_rows db))) of
        Inl e \<Rightarrow> Inl e
      | Inr stored \<Rightarrow> Inr (stored, cache(key \<mapsto> stored)),
      [CatalogQuery ''Category'', CatalogQuery ''ListingType'', CatalogQuery ''Agency'',
       CatalogQuery ''ContactType'', CatalogQuery ''Intent'', CacheSet key])"
  by (simp add: metadata_queries_def and_then_Inr done_with_def and_then_pair_Inr
      cache_set_def query_def)

lemma get_metadata_miss_eq:
  assumes "cache ''metadata'' = None"
  shows "get_metadata db cache =
     (case pickle (LazyMetadata
            (values_qs [''title'', ''description''] (category_rows db))
            (values_qs [''title'', ''description''] (listing_type_rows db))
            (values_qs [''title'', ''short_name'', ''icon_url''] (agency_rows db))
            (values_qs [''name'', ''required''] (contact_type_rows db))
            (values_qs [''action'', ''media_type'', ''label'', ''icon''] (intent_rows db))) of
        Inl e \<Rightarrow> (Inr (ErrorDict (''Error getting metadata: '' @ exn_str e)), cache,
           [CacheGet ''metadata'', CatalogQuery ''Category'', CatalogQuery ''ListingType'',
            CatalogQuery ''Agency'', CatalogQuery ''ContactType'', CatalogQuery ''Intent'',
            CacheSet ''metadata''])
      | Inr stored \<Rightarrow> (Inr stored, cache(''metadata'' \<mapsto> stored),
           [CacheGet ''metadata'', CatalogQuery ''Category'', CatalogQuery ''ListingType'',
            CatalogQuery ''Agency'', CatalogQuery ''ContactType'', CatalogQuery ''Intent'',
            CacheSet ''metadata'']))"
  using assms
  by (simp add: get_metadata_def Let_def metadata_block_built split: sum.splits)

lemma all_below_four: "(\<forall>j<4. P j) = (P 0 \<and> P 1 \<and> P 2 \<and> P (3::nat))"
proof -
  have "j < 4 \<longleftrightarrow> j = 0 \<or> j = 1 \<or> j = 2 \<or> j = 3" for j :: nat by linarith
  then show ?thesis by auto
qed

lemma metadata_pickle_fault:
  assumes "k < 5"
    and "[c, l, a, ct, i] ! k = Inl e"
    and "\<forall>j<k. \<exists>rows. [c, l, a, ct, i] ! j = Inr rows"
  shows "pickle (LazyMetadata (values_qs n1 c) (values_qs n2 l) (values_qs n3 a)
            (values_qs n4 ct) (values_qs n5 i)) = Inl e"
proof -
  from assms(1) consider "k = 0" | "k = 1" | "k = 2" | "k = 3" | "k = 4" by linarith
  then show ?thesis
  proof cases
    case 1
    with assms show ?thesis by (simp add: queryset_defs)
  next
    case 2
    with assms show ?thesis by (auto simp add: queryset_defs all_below_one)
  next
    case 3
    with assms show ?thesis by (auto simp add: queryset_defs all_below_two)
  next
    case 4
    with assms show ?thesis by (auto simp add: queryset_defs all_below_three)
  next
    case 5
    with assms show ?thesis by (auto simp add: queryset_defs all_below_four)
  qed
qed

lemma metadata_pickle_cases:
  "(\<exists>v. pickle (LazyMetadata (values_qs n1 c) (values_qs n2 l) (values_qs n3 a)
            (values_qs n4 ct) (values_qs n5 i)) = Inr (Metadata (categories v)
              (listing_types v) (agencies v) (contact_types v) (intents v))
       \<and> (\<forall>e. Inl e \<notin> set [c, l, a, ct, i]))
   \<or> (\<exists>e. Inl e \<in> set [c, l, a, ct, i]
        \<and> pickle (LazyMetadata (values_qs n1 c) (values_qs n2 l) (values_qs n3 a)
            (values_qs n4 ct) (values_qs n5 i)) = Inl e)"
proof (cases c)
  case (Inl e)
  then show ?thesis by (simp add: queryset_defs)
next
  case c: (Inr c')
  show ?thesis
  proof (cases l)
    case (Inl e)
    with c show ?thesis by (simp add: queryset_defs)
  next
    case l: (Inr l')
    show ?thesis
    proof (cases a)
      case (Inl e)
      with c l show ?thesis by (simp add: queryset_defs)
    next
      case a: (Inr a')
      show ?thesis
      proof (cases ct)
        case (Inl e)
        with c l a show ?thesis by (simp add: queryset_defs)
      next
        case ct: (Inr ct')
        show ?thesis
        proof (cases i)
          case (Inl e)
          with c l a ct show ?thesis by (simp add: queryset_defs)
        next
          case (Inr i')
          with c l a ct have "pickle (LazyMetadata (values_qs n1 c) (values_qs n2 l)
              (values_qs n3 a) (values_qs n4 ct) (values_qs n5 i))
            = Inr (Metadata (values_of n1 c') (values_of n2 l') (values_of n3 a')
                (values_of n4 ct') (values_of n5 i'))"
            by (simp add: queryset_defs)
          moreover from Inr c l a ct have "\<forall>e. Inl e \<notin> set [c, l, a, ct, i]" by simp
          ultimately show ?thesis
            by (intro disjI1 exI [of _ "Metadata (values_of n1 c') (values_of n2 l')
                (values_of n3 a') (values_of n4 ct') (values_of n5 i')"]) simp
        qed
      qed
    qed
  qed
qed

lemma get_metadata_first_access:
  assumes "cache ''metadata'' = None"
  shows "CatalogQuery ''Category'' \<in> set (accesses (get_metadata db cache))"
  using assms by (simp add: get_metadata_miss_eq accesses_def split: sum.splits)

lemma get_metadata_returns: "\<exists>v. returned (get_metadata db cache) = Inr v"
proof (cases "cache ''metadata''")
  case None
  then show ?thesis by (simp add: get_metadata_miss_eq returned_def split: sum.splits)
next
  case (Some data)
  then show ?thesis by (simp add: get_metadata_def Let_def returned_def)
qed

text \<open>Every fault of the data source on a miss ends in the error dictionary.\<close>

lemma get_storefront_fault_covered:
  fixes db :: "('t::linorder, 'r::linorder) storage"
  assumes "profiles db uname = Some user" and "cache (storefront_key user) = None"
    and "j < 3" and "for_user db j uname = Inl e \<or> for_user db j uname = Inr (Inl e)"
  shows "\<exists>k<3. \<exists>e' evs.
      (for_user db k uname = Inl e' \<or> for_user db k uname = Inr (Inl e'))
      \<and> get_storefront db cache uname =
          (Inr (ErrorDict (''Error getting storefront: '' @ exn_str e')), cache, evs)"
proof (rule get_storefront_miss_cases [where cache = cache, OF assms(1,2)])
  fix visible1 visible2 visible3
  assume r: "for_user db 0 uname = Inr (Inr visible1)" "for_user db 1 uname = Inr (Inr visible2)"
    "for_user db 2 uname = Inr (Inr visible3)"
  from assms(3) have "j = 0 \<or> j = 1 \<or> j = 2" by linarith
  with r assms(4) show ?thesis by auto
next
  fix e' evs k
  assume "k < 3" "for_user db k uname = Inl e' \<or> for_user db k uname = Inr (Inl e')"
    "get_storefront db cache uname =
            (Inr (ErrorDict (''Error getting storefront: '' @ exn_str e')), cache,
             ProfileGet uname # CacheGet (storefront_key user) # ListingQuery uname # evs)"
  then show ?thesis by blast
qed

lemma get_metadata_eval_fault_eq:
  assumes "cache ''metadata'' = None"
    and "k < 5"
    and "[category_rows db, listing_type_rows db, agency_rows db, contact_type_rows db,
          intent_rows db] ! k = Inl e"
    and "\<forall>j<k. \<exists>rows. [category_rows db, listing_type_rows db, agency_rows db,
          contact_type_rows db, intent_rows db] ! j = Inr rows"
  shows "get_metadata db cache =
     (Inr (ErrorDict (''Error getting metadata: '' @ exn_str e)), cache,
      [CacheGet ''metadata'', CatalogQuery ''Category'', CatalogQuery ''ListingType'',
       CatalogQuery ''Agency'', CatalogQuery ''ContactType'', CatalogQuery ''Intent'',
       CacheSet ''metadata''])"
  unfolding get_metadata_miss_eq [where cache = cache and db = db, OF assms(1)]
    metadata_pickle_fault [OF assms(2,3,4)]
  by simp

lemma get_metadata_fault_covered:
  fixes db :: "('t, 'r) storage" and cache :: "('t, 'r) cache"
  assumes "cache ''metadata'' = None"
    and "Inl e \<in> set [category_rows db, listing_type_rows db, agency_rows db,
          contact_type_rows db, intent_rows db]"
  shows "\<exists>e' evs. Inl e' \<in> set [category_rows db, listing_type_rows db, agency_rows db,
          contact_type_rows db, intent_rows db]
      \<and> get_metadata db cache =
          (Inr (ErrorDict (''Error getting metadata: '' @ exn_str e')), cache, evs)"
proof -
  let ?p = "pickle (LazyMetadata
            (values_qs [''title'', ''description''] (category_rows db))
            (values_qs [''title'', ''description''] (listing_type_rows db))
            (values_qs [''title'', ''short_name'', ''icon_url''] (agency_rows db))
            (values_qs [''name'', ''required''] (contact_type_rows db))
            (values_qs [''action'', ''media_type'', ''label'', ''icon''] (intent_rows db)))
          :: exn + ('t, 'r) pyval"
  from metadata_pickle_cases [of "[''title'', ''description'']" "category_rows db"
      "[''title'', ''description'']" "listing_type_rows db"
      "[''title'', ''short_name'', ''icon_url'']" "agency_rows db"
      "[''name'', ''required'']" "contact_type_rows db"
      "[''action'', ''media_type'', ''label'', ''icon'']" "intent_rows db"] assms(2)
  obtain e' where e': "Inl e' \<in> set [category_rows db, listing_type_rows db, agency_rows db,
          contact_type_rows db, intent_rows db]" and p: "?p = Inl e'"
    by blast
  have "get_metadata db cache =
      (Inr (ErrorDict (''Error getting metadata: '' @ exn_str e')), cache,
       [CacheGet ''metadata'', CatalogQuery ''Category'', CatalogQuery ''ListingType'',
        CatalogQuery ''Agency'', CatalogQuery ''ContactType'', CatalogQuery ''Intent'',
        CacheSet ''metadata''])"
    unfolding get_metadata_miss_eq [where cache = cache and db = db, OF assms(1)] p
    by simp
  with e' show ?thesis by blast
qed

subsection \<open>The derived key\<close>

lemma orgs_loop: "foldl (\<lambda>orgs title. orgs @ title @ sep) acc titles
    = acc @ concat (map (\<lambda>title. title @ sep) titles)"
  by (induction titles arbitrary: acc) simp_all

lemma storefront_key_eq:
  "storefront_key user =
     ''storefront:'' @ make_keysafe (concat (map (\<lambda>title. title @ ''_'') (organization_titles user)))
       @ '':'' @ make_keysafe (access_control_title user)"
  by (simp add: storefront_key_def Let_def orgs_loop)

subsection \<open>Evaluation of the example data\<close>

lemmas keysafe_defs = make_keysafe_def is_word_char_def is_alnum_def char_lower_def
  ascii_upper_def ascii_lower_def ascii_digits_def

lemma example_key:
  "storefront_key example_profile = ''storefront:ministryoftruth_:unclassified''"
  by (simp add: storefront_key_def example_profile_def keysafe_defs)

lemma example_miss:
  "get_storefront example_storage example_cache ''wsmith'' =
     (Inr example_bundle,
      example_cache(''storefront:ministryoftruth_:unclassified'' \<mapsto> example_bundle),
      [ProfileGet ''wsmith'', CacheGet ''storefront:ministryoftruth_:unclassified'',
       ListingQuery ''wsmith'', ListingQuery ''wsmith'', ListingQuery ''wsmith'',
       CacheSet ''storefront:ministryoftruth_:unclassified''])"
proof -
  have "get_storefront example_storage example_cache ''wsmith'' =
     (Inr (Storefront (take 12 (filter is_featured example_listings))
            (take 24 (sort_key approved_date example_listings))
            (take 36 (sort_key avg_rate example_listings))),
      example_cache(storefront_key example_profile \<mapsto>
        Storefront (take 12 (filter is_featured example_listings))
            (take 24 (sort_key approved_date example_listings))
            (take 36 (sort_key avg_rate example_listings))),
      [ProfileGet ''wsmith'', CacheGet (storefront_key example_profile), ListingQuery ''wsmith'',
       ListingQuery ''wsmith'', ListingQuery ''wsmith'', CacheSet (storefront_key example_profile)])"
    by (rule get_storefront_miss_eq)
       (simp_all add: example_storage_def example_key example_cache_def)
  then show ?thesis
    by (simp add: example_key example_listings_def example_bundle_def)
qed

lemma example_bundle_eq:
  "example_bundle =
     Storefront (take 12 (filter is_featured example_listings))
       (take 24 (sort_key approved_date example_listings))
       (take 36 (sort_key avg_rate example_listings))"
  by (simp add: example_bundle_def example_listings_def)

subsection \<open>Cache miss\<close>

text \<open>
  Claim C5. On a cache miss (the profile exists, the derived key is absent from the cache,
  the three listing queries return query sets that can be read) \<open>get_storefront\<close> makes
  exactly three listing queries and returns a three-part bundle: \<open>featured\<close> is the first
  12 of the visible listings flagged \<open>is_featured\<close>; \<open>recent\<close> holds the \<open>min 24 n\<close>
  visible listings of least \<open>approved_date\<close> in ascending order; \<open>most_popular\<close> holds the
  \<open>min 36 n\<close> visible listings of least \<open>avg_rate\<close> in ascending order. Each part is taken
  from the visible listings that its own query gives. The bundle is stored under the
  derived key (the last call is the cache write) and the same bundle is returned.
\<close>

theorem get_storefront_cache_miss:
  fixes db :: "('t::linorder, 'r::linorder) storage"
  assumes "profiles db uname = Some user"
    and "cache (storefront_key user) = None"
    and "for_user db 0 uname = Inr (Inr visible1)"
    and "for_user db 1 uname = Inr (Inr visible2)"
    and "for_user db 2 uname = Inr (Inr visible3)"
  shows "\<exists>f r m.
      get_storefront db cache uname =
        (Inr (Storefront f r m), cache(storefront_key user \<mapsto> Storefront f r m),
         [ProfileGet uname, CacheGet (storefront_key user), ListingQuery uname,
          ListingQuery uname, ListingQuery uname, CacheSet (storefront_key user)])
    \<and> f = take 12 (filter is_featured visible1)
    \<and> mset r \<subseteq># mset visible2 \<and> length r = min 24 (length visible2)
    \<and> sorted (map approved_date r)
    \<and> (\<forall>x\<in>set r. \<forall>y\<in>#mset visible2 - mset r. approved_date x \<le> approved_date y)
    \<and> mset m \<subseteq># mset visible3 \<and> length m = min 36 (length visible3)
    \<and> sorted (map avg_rate m)
    \<and> (\<forall>x\<in>set m. \<forall>y\<in>#mset visible3 - mset m. avg_rate x \<le> avg_rate y)"
proof (intro exI conjI)
  show "get_storefront db cache uname =
     (Inr (Storefront (take 12 (filter is_featured visible1))
            (take 24 (sort_key approved_date visible2))
            (take 36 (sort_key avg_rate visible3))),
      cache(storefront_key user \<mapsto>
        Storefront (take 12 (filter is_featured visible1))
            (take 24 (sort_key approved_date visible2))
            (take 36 (sort_key avg_rate visible3))),
      [ProfileGet uname, CacheGet (storefront_key user), ListingQuery uname,
       ListingQuery uname, ListingQuery uname, CacheSet (storefront_key user)])"
    using assms by (simp add: get_storefront_miss_eq)
  show "take 12 (filter is_featured visible1) = take 12 (filter is_featured visible1)" ..
  show "mset (take 24 (sort_key approved_date visible2)) \<subseteq># mset visible2"
    by (rule take_sort_key_mset)
  show "length (take 24 (sort_key approved_date visible2)) = min 24 (length visible2)"
    by (rule take_sort_key_length)
  show "sorted (map approved_date (take 24 (sort_key approved_date visible2)))"
    by (rule take_sort_key_sorted)
  show "\<forall>x\<in>set (take 24 (sort_key approved_date visible2)).
          \<forall>y\<in>#mset visible2 - mset (take 24 (sort_key approved_date visible2)).
            approved_date x \<le> approved_date y"
    by (rule take_sort_key_least_all)
  show "mset (take 36 (sort_key avg_rate visible3)) \<subseteq># mset visible3"
    by (rule take_sort_key_mset)
  show "length (take 36 (sort_key avg_rate visible3)) = min 36 (length visible3)"
    by (rule take_sort_key_length)
  show "sorted (map avg_rate (take 36 (sort_key avg_rate visible3)))"
    by (rule take_sort_key_sorted)
  show "\<forall>x\<in>set (take 36 (sort_key avg_rate visible3)).
          \<forall>y\<in>#mset visible3 - mset (take 36 (sort_key avg_rate visible3)).
            avg_rate x \<le> avg_rate y"
    by (rule take_sort_key_least_all)
qed

theorem get_storefront_cache_miss_witness:
  "profiles example_storage ''wsmith'' = Some example_profile
   \<and> example_cache (storefront_key example_profile) = None
   \<and> for_user example_storage 0 ''wsmith'' = Inr (Inr example_listings)
   \<and> for_user example_storage 1 ''wsmith'' = Inr (Inr example_listings)
   \<and> for_user example_storage 2 ''wsmith'' = Inr (Inr example_listings)
   \<and> (\<exists>f r m.
         get_storefront example_storage example_cache ''wsmith'' =
           (Inr (Storefront f r m),
            example_cache(''storefront:ministryoftruth_:unclassified'' \<mapsto> Storefront f r m),
            [ProfileGet ''wsmith'', CacheGet ''storefront:ministryoftruth_:unclassified'',
             ListingQuery ''wsmith'', ListingQuery ''wsmith'', ListingQuery ''wsmith'',
             CacheSet ''storefront:ministryoftruth_:unclassified''])
       \<and> map listing_id f = [1, 3] \<and> map listing_id r = [2, 3, 1]
       \<and> map listing_id m = [3, 2, 1])"
proof -
  have h1: "profiles example_storage ''wsmith'' = Some example_profile"
    by (simp add: example_storage_def)
  have h2: "example_cache (storefront_key example_profile) = None"
    by (simp add: example_key example_cache_def)
  have h3: "for_user example_storage k ''wsmith'' = Inr (Inr example_listings)" for k
    by (simp add: example_storage_def)
  from get_storefront_cache_miss [where cache = example_cache, OF h1 h2 h3 h3 h3]
  obtain f r m where
    eq: "get_storefront example_storage example_cache ''wsmith'' =
        (Inr (Storefront f r m), example_cache(storefront_key example_profile \<mapsto> Storefront f r m),
         [ProfileGet ''wsmith'', CacheGet (storefront_key example_profile),
          ListingQuery ''wsmith'', ListingQuery ''wsmith'', ListingQuery ''wsmith'',
          CacheSet (storefront_key example_profile)])"
    by blast
  from eq have "example_bundle = Storefront f r m"
    by (simp add: example_miss)
  then have "map listing_id f = [1, 3]" "map listing_id r = [2, 3, 1]"
    "map listing_id m = [3, 2, 1]"
    by (auto simp add: example_bundle_def)
  with eq h1 h2 h3 show ?thesis
    unfolding example_key by simp
qed

subsection \<open>Faults of the data source\<close>

text \<open>
  Claim C6. On a miss, every fault of the data source during aggregation ends in the error
  dictionary, returned as a value, with the cache as it was.

  For \<open>get_storefront\<close>: when a call of \<open>for_user\<close> raises after the calls before it have
  returned, the result is \<open>{error: True, msg: 'Error getting storefront: ' + detail}\<close> for
  that exception, after the listing queries made so far. When the three calls return and
  a query set cannot be read, with the query sets before it readable, the exception
  leaves \<open>cache.set\<close> and the result is the error dictionary for it, after three listing
  queries and the call of \<open>cache.set\<close>. Whenever one of the three calls raises or returns
  an unreadable query set, the result is the error dictionary for one of these faults,
  the cache is unchanged, and the next call behaves as on the cache before and queries
  again. With a profile the call always returns a value.

  For \<open>get_metadata\<close>: the five query sets are built without reading; when one of the
  tables cannot be read, with the tables before it readable, the exception leaves
  \<open>cache.set\<close> and the result is \<open>{error: True, msg: 'Error getting metadata: ' + detail}\<close>
  for it. Whenever a table is unreadable, the result is the error dictionary for one of
  the unreadable tables, the cache is unchanged, and the next call queries again. The
  call always returns a value.
\<close>

theorem upstream_fault_structured_error:
  fixes db db' :: "('t::linorder, 'r::linorder) storage"
  shows
   "(profiles db uname = Some user \<and> cache (storefront_key user) = None \<longrightarrow>
       (k < 3 \<and> for_user db k uname = Inl e
          \<and> (\<forall>j<k. \<exists>q. for_user db j uname = Inr q) \<longrightarrow>
        get_storefront db cache uname =
          (Inr (ErrorDict (''Error getting storefront: '' @ exn_str e)), cache,
           [ProfileGet uname, CacheGet (storefront_key user)]
             @ replicate (Suc k) (ListingQuery uname)))
     \<and> ((\<forall>j<3. \<exists>q. for_user db j uname = Inr q)
          \<and> k < 3 \<and> for_user db k uname = Inr (Inl e)
          \<and> (\<forall>j<k. \<exists>rows. for_user db j uname = Inr (Inr rows)) \<longrightarrow>
        get_storefront db cache uname =
          (Inr (ErrorDict (''Error getting storefront: '' @ exn_str e)), cache,
           [ProfileGet uname, CacheGet (storefront_key user), ListingQuery uname,
            ListingQuery uname, ListingQuery uname, CacheSet (storefront_key user)]))
     \<and> (k < 3 \<and> (for_user db k uname = Inl e \<or> for_user db k uname = Inr (Inl e)) \<longrightarrow>
          (\<exists>j<3. \<exists>e' evs.
              (for_user db j uname = Inl e' \<or> for_user db j uname = Inr (Inl e'))
              \<and> get_storefront db cache uname =
                  (Inr (ErrorDict (''Error getting storefront: '' @ exn_str e')), cache, evs))
        \<and> get_storefront db' (cache_after (get_storefront db cache uname)) uname
            = get_storefront db' cache uname
        \<and> (profiles db' uname = Some user \<longrightarrow>
             ListingQuery uname \<in> set (accesses (get_storefront db'
                  (cache_after (get_storefront db cache uname)) uname)))))
   \<and> (profiles db uname = Some user \<longrightarrow>
        (\<exists>v. returned (get_storefront db cache uname) = Inr v))
   \<and> (cache ''metadata'' = None
        \<and> tables = [category_rows db, listing_type_rows db, agency_rows db,
             contact_type_rows db, intent_rows db] \<longrightarrow>
       (k < 5 \<and> tables ! k = Inl e \<and> (\<forall>j<k. \<exists>rows. tables ! j = Inr rows) \<longrightarrow>
        get_metadata db cache =
          (Inr (ErrorDict (''Error getting metadata: '' @ exn_str e)), cache,
           [CacheGet ''metadata'', CatalogQuery ''Category'', CatalogQuery ''ListingType'',
            CatalogQuery ''Agency'', CatalogQuery ''ContactType'', CatalogQuery ''Intent'',
            CacheSet ''metadata'']))
     \<and> (Inl e \<in> set tables \<longrightarrow>
          (\<exists>e' evs. Inl e' \<in> set tables
              \<and> get_metadata db cache =
                  (Inr (ErrorDict (''Error getting metadata: '' @ exn_str e')), cache, evs))
        \<and> get_metadata db' (cache_after (get_metadata db cache)) = get_metadata db' cache
        \<and> CatalogQuery ''Category''
             \<in> set (accesses (get_metadata db' (cache_after (get_metadata db cache))))))
   \<and> (\<exists>v. returned (get_metadata db cache) = Inr v)"
proof (intro conjI impI; (elim conjE)?)
  assume "profiles db uname = Some user" "cache (storefront_key user) = None"
    "k < 3" "for_user db k uname = Inl e" "\<forall>j<k. \<exists>q. for_user db j uname = Inr q"
  then show "get_storefront db cache uname =
          (Inr (ErrorDict (''Error getting storefront: '' @ exn_str e)), cache,
           [ProfileGet uname, CacheGet (storefront_key user)]
             @ replicate (Suc k) (ListingQuery uname))"
    by (rule get_storefront_call_fault_eq)
next
  assume "profiles db uname = Some user" "cache (storefront_key user) = None"
    "\<forall>j<3. \<exists>q. for_user db j uname = Inr q"
    "k < 3" "for_user db k uname = Inr (Inl e)"
    "\<forall>j<k. \<exists>rows. for_user db j uname = Inr (Inr rows)"
  then show "get_storefront db cache uname =
          (Inr (ErrorDict (''Error getting storefront: '' @ exn_str e)), cache,
           [ProfileGet uname, CacheGet (storefront_key user), ListingQuery uname,
            ListingQuery uname, ListingQuery uname, CacheSet (storefront_key user)])"
    by (rule get_storefront_eval_fault_eq)
next
  assume h: "profiles db uname = Some user" "cache (storefront_key user) = None"
    "k < 3" "for_user db k uname = Inl e \<or> for_user db k uname = Inr (Inl e)"
  from get_storefront_fault_covered [where cache = cache, OF h]
  show c: "\<exists>j<3. \<exists>e' evs.
              (for_user db j uname = Inl e' \<or> for_user db j uname = Inr (Inl e'))
              \<and> get_storefront db cache uname =
                  (Inr (ErrorDict (''Error getting storefront: '' @ exn_str e')), cache, evs)" .
  then have u: "cache_after (get_storefront db cache uname) = cache"
    by (auto simp add: cache_after_def)
  then show "get_storefront db' (cache_after (get_storefront db cache uname)) uname
            = get_storefront db' cache uname"
    by simp
  assume "profiles db' uname = Some user"
  with h(2) u show "ListingQuery uname \<in> set (accesses (get_storefront db'
                  (cache_after (get_storefront db cache uname)) uname))"
    by (simp add: get_storefront_miss_queries)
next
  assume "profiles db uname = Some user"
  then show "\<exists>v. returned (get_storefront db cache uname) = Inr v"
    by (rule get_storefront_returns)
next
  assume "cache ''metadata'' = None"
    "tables = [category_rows db, listing_type_rows db, agency_rows db,
             contact_type_rows db, intent_rows db]"
    "k < 5" "tables ! k = Inl e" "\<forall>j<k. \<exists>rows. tables ! j = Inr rows"
  then show "get_metadata db cache =
          (Inr (ErrorDict (''Error getting metadata: '' @ exn_str e)), cache,
           [CacheGet ''metadata'', CatalogQuery ''Category'', CatalogQuery ''ListingType'',
            CatalogQuery ''Agency'', CatalogQuery ''ContactType'', CatalogQuery ''Intent'',
            CacheSet ''metadata''])"
    by (simp add: get_metadata_eval_fault_eq)
next
  assume h: "cache ''metadata'' = None"
    "tables = [category_rows db, listing_type_rows db, agency_rows db,
             contact_type_rows db, intent_rows db]"
    "Inl e \<in> set tables"
  from h(3) have "Inl e \<in> set [category_rows db, listing_type_rows db, agency_rows db,
             contact_type_rows db, intent_rows db]"
    unfolding h(2) .
  with h(1) have "\<exists>e' evs. Inl e' \<in> set [category_rows db, listing_type_rows db, agency_rows db,
          contact_type_rows db, intent_rows db]
      \<and> get_metadata db cache =
          (Inr (ErrorDict (''Error getting metadata: '' @ exn_str e')), cache, evs)"
    by (rule get_metadata_fault_covered)
  then show c: "\<exists>e' evs. Inl e' \<in> set tables
              \<and> get_metadata db cache =
                  (Inr (ErrorDict (''Error getting metadata: '' @ exn_str e')), cache, evs)"
    unfolding h(2) .
  then have u: "cache_after (get_metadata db cache) = cache"
    by (auto simp add: cache_after_def)
  then show "get_metadata db' (cache_after (get_metadata db cache)) = get_metadata db' cache"
    by simp
  from h(1) u show "CatalogQuery ''Category''
             \<in> set (accesses (get_metadata db' (cache_after (get_metadata db cache))))"
    by (simp add: get_metadata_first_access)
next
  show "\<exists>v. returned (get_metadata db cache) = Inr v"
    by (rule get_metadata_returns)
qed

text \<open>
  The theorem at work: with the second call of \<open>for_user\<close> raising, the error dictionary
  comes after two listing queries; with the second query set unreadable, it comes out of
  \<open>cache.set\<close> after three; with the agency table unreadable, \<open>get_metadata\<close> gives its
  error dictionary out of \<open>cache.set\<close>. The cache is as it was each time, and the next
  call queries again.
\<close>

theorem upstream_fault_structured_error_witness:
  "profiles flaky_storage ''wsmith'' = Some example_profile
   \<and> example_cache (storefront_key example_profile) = None
   \<and> for_user flaky_storage 0 ''wsmith'' = Inr (Inr example_listings)
   \<and> for_user flaky_storage 1 ''wsmith'' = Inl (UpstreamFault ''too many connections'')
   \<and> get_storefront flaky_storage example_cache ''wsmith'' =
        (Inr (ErrorDict ''Error getting storefront: too many connections''), example_cache,
         [ProfileGet ''wsmith'', CacheGet ''storefront:ministryoftruth_:unclassified'',
          ListingQuery ''wsmith'', ListingQuery ''wsmith''])
   \<and> profiles down_storage ''wsmith'' = Some example_profile
   \<and> for_user down_storage 0 ''wsmith'' = Inr (Inr example_listings)
   \<and> for_user down_storage 1 ''wsmith'' = Inr (Inl (UpstreamFault ''connection lost''))
   \<and> for_user down_storage 2 ''wsmith'' = Inr (Inr example_listings)
   \<and> get_storefront down_storage example_cache ''wsmith'' =
        (Inr (ErrorDict ''Error getting storefront: connection lost''), example_cache,
         [ProfileGet ''wsmith'', CacheGet ''storefront:ministryoftruth_:unclassified'',
          ListingQuery ''wsmith'', ListingQuery ''wsmith'', ListingQuery ''wsmith'',
          CacheSet ''storefront:ministryoftruth_:unclassified''])
   \<and> profiles example_storage ''wsmith'' = Some example_profile
   \<and> get_storefront example_storage
          (cache_after (get_storefront down_storage example_cache ''wsmith'')) ''wsmith''
        = get_storefront example_storage example_cache ''wsmith''
   \<and> ListingQuery ''wsmith''
        \<in> set (accesses (get_storefront example_storage
              (cache_after (get_storefront down_storage example_cache ''wsmith'')) ''wsmith''))
   \<and> Map.empty ''metadata'' = (None :: (nat, nat) pyval option)
   \<and> category_rows faulty_storage = Inr [[(''title'', Str ''Tools''), (''id'', Str ''1'')]]
   \<and> listing_type_rows faulty_storage = Inr []
   \<and> agency_rows faulty_storage = Inl (UpstreamFault ''connection refused'')
   \<and> get_metadata faulty_storage Map.empty =
        (Inr (ErrorDict ''Error getting metadata: connection refused''), Map.empty,
         [CacheGet ''metadata'', CatalogQuery ''Category'', CatalogQuery ''ListingType'',
          CatalogQuery ''Agency'', CatalogQuery ''ContactType'', CatalogQuery ''Intent'',
          CacheSet ''metadata''])
   \<and> CatalogQuery ''Category''
        \<in> set (accesses (get_metadata example_storage
              (cache_after (get_metadata faulty_storage Map.empty))))"
proof -
  have p1: "profiles flaky_storage ''wsmith'' = Some example_profile"
    and p2: "profiles down_storage ''wsmith'' = Some example_profile"
    and p3: "profiles example_storage ''wsmith'' = Some example_profile"
    by (simp_all add: flaky_storage_def down_storage_def example_storage_def)
  have m: "example_cache (storefront_key example_profile) = None"
    by (simp add: example_key example_cache_def)
  have f0: "for_user flaky_storage 0 ''wsmith'' = Inr (Inr example_listings)"
    and f1: "for_user flaky_storage 1 ''wsmith'' = Inl (UpstreamFault ''too many connections'')"
    by (simp_all add: flaky_storage_def)
  have d0: "for_user down_storage 0 ''wsmith'' = Inr (Inr example_listings)"
    and d1: "for_user down_storage 1 ''wsmith'' = Inr (Inl (UpstreamFault ''connection lost''))"
    and d2: "for_user down_storage 2 ''wsmith'' = Inr (Inr example_listings)"
    by (simp_all add: down_storage_def)
  have t: "category_rows faulty_storage = Inr [[(''title'', Str ''Tools''), (''id'', Str ''1'')]]"
    "listing_type_rows faulty_storage = Inr []"
    "agency_rows faulty_storage = Inl (UpstreamFault ''connection refused'')"
    by (simp_all add: faulty_storage_def example_storage_def)
  have e: "Map.empty ''metadata'' = (None :: (nat, nat) pyval option)"
    by simp
  have lt13: "(1::nat) < 3" and lt25: "(2::nat) < 5"
    by simp_all
  note call = upstream_fault_structured_error [where db = flaky_storage and uname = "''wsmith''"
      and user = example_profile and cache = example_cache and k = 1
      and e = "UpstreamFault ''too many connections''"]
  from f0 have "\<forall>j<1. \<exists>q. for_user flaky_storage j ''wsmith'' = Inr q"
    by (simp add: all_below_one)
  with call p1 m lt13 f1 have a0: "get_storefront flaky_storage example_cache ''wsmith'' =
        (Inr (ErrorDict (''Error getting storefront: ''
            @ exn_str (UpstreamFault ''too many connections''))), example_cache,
         [ProfileGet ''wsmith'', CacheGet (storefront_key example_profile)]
           @ replicate (Suc 1) (ListingQuery ''wsmith''))"
    by blast
  then have a: "get_storefront flaky_storage example_cache ''wsmith'' =
        (Inr (ErrorDict ''Error getting storefront: too many connections''), example_cache,
         [ProfileGet ''wsmith'', CacheGet ''storefront:ministryoftruth_:unclassified'',
          ListingQuery ''wsmith'', ListingQuery ''wsmith''])"
    by (simp add: example_key)
  note eval = upstream_fault_structured_error [where db = down_storage and uname = "''wsmith''"
      and user = example_profile and cache = example_cache and k = 1
      and e = "UpstreamFault ''connection lost''" and db' = example_storage]
  from d0 d1 d2 have built: "\<forall>j<3. \<exists>q. for_user down_storage j ''wsmith'' = Inr q"
    by (simp add: all_below_three)
  from d0 have before: "\<forall>j<1. \<exists>rows. for_user down_storage j ''wsmith'' = Inr (Inr rows)"
    by (simp add: all_below_one)
  from eval p2 m lt13 d1 built before
  have b0: "get_storefront down_storage example_cache ''wsmith'' =
        (Inr (ErrorDict (''Error getting storefront: ''
            @ exn_str (UpstreamFault ''connection lost''))), example_cache,
         [ProfileGet ''wsmith'', CacheGet (storefront_key example_profile),
          ListingQuery ''wsmith'', ListingQuery ''wsmith'', ListingQuery ''wsmith'',
          CacheSet (storefront_key example_profile)])"
    by blast
  then have b: "get_storefront down_storage example_cache ''wsmith'' =
        (Inr (ErrorDict ''Error getting storefront: connection lost''), example_cache,
         [ProfileGet ''wsmith'', CacheGet ''storefront:ministryoftruth_:unclassified'',
          ListingQuery ''wsmith'', ListingQuery ''wsmith'', ListingQuery ''wsmith'',
          CacheSet ''storefront:ministryoftruth_:unclassified''])"
    by (simp add: example_key)
  from eval p2 m lt13 d1
  have n: "get_storefront example_storage
          (cache_after (get_storefront down_storage example_cache ''wsmith'')) ''wsmith''
        = get_storefront example_storage example_cache ''wsmith''"
    by blast
  from eval p2 m lt13 d1 p3
  have q: "ListingQuery ''wsmith''
        \<in> set (accesses (get_storefront example_storage
              (cache_after (get_storefront down_storage example_cache ''wsmith'')) ''wsmith''))"
    by blast
  note meta = upstream_fault_structured_error [where db = faulty_storage
      and uname = "''wsmith''" and user = example_profile
      and cache = "Map.empty :: (nat, nat) cache" and k = 2
      and e = "UpstreamFault ''connection refused''" and db' = example_storage
      and tables = "[category_rows faulty_storage, listing_type_rows faulty_storage,
          agency_rows faulty_storage, contact_type_rows faulty_storage,
          intent_rows faulty_storage]"]
  from t have tk: "[category_rows faulty_storage, listing_type_rows faulty_storage,
          agency_rows faulty_storage, contact_type_rows faulty_storage,
          intent_rows faulty_storage] ! 2 = Inl (UpstreamFault ''connection refused'')"
    and tb: "\<forall>j<2. \<exists>rows. [category_rows faulty_storage, listing_type_rows faulty_storage,
          agency_rows faulty_storage, contact_type_rows faulty_storage,
          intent_rows faulty_storage] ! j = Inr rows"
    and tm: "Inl (UpstreamFault ''connection refused'')
        \<in> set [category_rows faulty_storage, listing_type_rows faulty_storage,
          agency_rows faulty_storage, contact_type_rows faulty_storage,
          intent_rows faulty_storage]"
    by (simp_all add: all_below_two)
  from meta e lt25 tk tb
  have c0: "get_metadata faulty_storage Map.empty =
        (Inr (ErrorDict (''Error getting metadata: ''
            @ exn_str (UpstreamFault ''connection refused''))), Map.empty,
         [CacheGet ''metadata'', CatalogQuery ''Category'', CatalogQuery ''ListingType'',
          CatalogQuery ''Agency'', CatalogQuery ''ContactType'', CatalogQuery ''Intent'',
          CacheSet ''metadata''])"
    by blast
  then have c: "get_metadata faulty_storage Map.empty =
        (Inr (ErrorDict ''Error getting metadata: connection refused''), Map.empty,
         [CacheGet ''metadata'', CatalogQuery ''Category'', CatalogQuery ''ListingType'',
          CatalogQuery ''Agency'', CatalogQuery ''ContactType'', CatalogQuery ''Intent'',
          CacheSet ''metadata''])"
    by simp
  from meta e tm
  have r: "CatalogQuery ''Category''
        \<in> set (accesses (get_metadata example_storage
              (cache_after (get_metadata faulty_storage Map.empty))))"
    by blast
  from p1 m f0 f1 a p2 d0 d1 d2 b p3 n q e t c r show ?thesis by blast
qed

subsection \<open>Key normalisation\<close>

text \<open>
  Claim C7. The documentation of \<open>make_keysafe\<close> and the claim say that every character
  that is not alphanumeric is removed. The pattern \<open>\W\<close> does not match the underscore,
  so the code keeps it: on the input \<open>Org_1\<close> the code returns \<open>org_1\<close>, where the
  documented normalisation gives \<open>org1\<close>.
\<close>

theorem make_keysafe_keeps_underscore:
  "make_keysafe ''Org_1'' = ''org_1'' \<and> keysafe_documented ''Org_1'' = ''org1''"
  by (simp add: keysafe_defs keysafe_documented_def)

subsection \<open>The cache key\<close>

text \<open>
  Claim C8, as stated, fails: the key is not derived from an ordered, deduplicated set of
  titles. The loop appends the titles in the order the membership query returns them and
  neither sorts nor deduplicates, so two users with the same set of organizations in a
  different query order read and write different keys.
\<close>

theorem storefront_key_order_counterexample:
  "set (organization_titles two_org_profile) = set (organization_titles reordered_profile)
   \<and> access_control_title two_org_profile = access_control_title reordered_profile
   \<and> profiles order_storage ''winston'' = Some two_org_profile
   \<and> profiles order_storage ''julia'' = Some reordered_profile
   \<and> accesses (get_storefront order_storage Map.empty ''winston'') =
       [ProfileGet ''winston'',
        CacheGet ''storefront:ministryoftruth_ministryoflove_:unclassified'',
        ListingQuery ''winston'', ListingQuery ''winston'', ListingQuery ''winston'',
        CacheSet ''storefront:ministryoftruth_ministryoflove_:unclassified'']
   \<and> accesses (get_storefront order_storage Map.empty ''julia'') =
       [ProfileGet ''julia'',
        CacheGet ''storefront:ministryoflove_ministryoftruth_:unclassified'',
        ListingQuery ''julia'', ListingQuery ''julia'', ListingQuery ''julia'',
        CacheSet ''storefront:ministryoflove_ministryoftruth_:unclassified'']
   \<and> storefront_key two_org_profile \<noteq> storefront_key reordered_profile"
proof -
  have k1: "storefront_key two_org_profile =
      ''storefront:ministryoftruth_ministryoflove_:unclassified''"
    by (simp add: storefront_key_def two_org_profile_def keysafe_defs)
  have k2: "storefront_key reordered_profile =
      ''storefront:ministryoflove_ministryoftruth_:unclassified''"
    by (simp add: storefront_key_def reordered_profile_def keysafe_defs)
  have p1: "profiles order_storage ''winston'' = Some two_org_profile"
    and p2: "profiles order_storage ''julia'' = Some reordered_profile"
    by (simp_all add: order_storage_def)
  have q: "for_user order_storage k u = Inr (Inr example_listings)" for k u
    by (simp add: order_storage_def example_storage_def)
  have a1: "accesses (get_storefront order_storage Map.empty ''winston'') =
       [ProfileGet ''winston'', CacheGet (storefront_key two_org_profile),
        ListingQuery ''winston'', ListingQuery ''winston'', ListingQuery ''winston'',
        CacheSet (storefront_key two_org_profile)]"
    by (simp add: get_storefront_miss_eq [OF p1 _ q q q] accesses_def)
  have a2: "accesses (get_storefront order_storage Map.empty ''julia'') =
       [ProfileGet ''julia'', CacheGet (storefront_key reordered_profile),
        ListingQuery ''julia'', ListingQuery ''julia'', ListingQuery ''julia'',
        CacheSet (storefront_key reordered_profile)]"
    by (simp add: get_storefront_miss_eq [OF p2 _ q q q] accesses_def)
  have s: "set (organization_titles two_org_profile) = set (organization_titles reordered_profile)"
    "access_control_title two_org_profile = access_control_title reordered_profile"
    by (auto simp add: two_org_profile_def reordered_profile_def)
  from k1 k2 have ne: "storefront_key two_org_profile \<noteq> storefront_key reordered_profile"
    by simp
  from s p1 p2 a1 a2 ne show ?thesis unfolding k1 k2 by blast
qed

text \<open>
  Claim C8, amended. For every user with a profile, \<open>get_storefront\<close> reads the cache
  under the key \<open>storefront:<orgs>:<level>\<close>, where \<open><orgs>\<close> is \<open>make_keysafe\<close> of
  the organization titles, each followed by an underscore, concatenated in the order the
  membership query returns them, and \<open><level>\<close> is \<open>make_keysafe\<close> of the access-control
  title. Hence two users whose membership queries return the same sequence of titles and
  who have the same access-control title share one key: a bundle the first call returns
  is served to the second user from the cache.
\<close>

theorem storefront_key_follows_query_order:
  fixes db :: "('t::linorder, 'r::linorder) storage"
  assumes "profiles db uname = Some user"
  shows "(\<exists>evs. accesses (get_storefront db cache uname) =
            ProfileGet uname
            # CacheGet (''storefront:''
                @ make_keysafe (concat (map (\<lambda>title. title @ ''_'') (organization_titles user)))
                @ '':'' @ make_keysafe (access_control_title user))
            # evs)
     \<and> (\<forall>uname' user' f r m cache' evs.
           profiles db uname' = Some user'
           \<and> organization_titles user' = organization_titles user
           \<and> access_control_title user' = access_control_title user
           \<and> get_storefront db cache uname = (Inr (Storefront f r m), cache', evs)
           \<longrightarrow> storefront_key user' = storefront_key user
             \<and> get_storefront db cache' uname' =
                 (Inr (Storefront f r m), cache',
                  [ProfileGet uname', CacheGet (storefront_key user)]))"
proof (intro conjI allI impI)
  from get_storefront_accesses_key [OF assms, of cache]
  show "\<exists>evs. accesses (get_storefront db cache uname) =
            ProfileGet uname
            # CacheGet (''storefront:''
                @ make_keysafe (concat (map (\<lambda>title. title @ ''_'') (organization_titles user)))
                @ '':'' @ make_keysafe (access_control_title user))
            # evs"
    by (simp only: storefront_key_eq)
next
  fix uname' user' f r m cache' evs
  assume h: "profiles db uname' = Some user'
           \<and> organization_titles user' = organization_titles user
           \<and> access_control_title user' = access_control_title user
           \<and> get_storefront db cache uname = (Inr (Storefront f r m), cache', evs)"
  then show k: "storefront_key user' = storefront_key user"
    by (simp add: storefront_key_def)
  from h assms have "cache' (storefront_key user) = Some (Storefront f r m)"
    by (blast intro: stored_after_bundle)
  with h k show "get_storefront db cache' uname' =
                 (Inr (Storefront f r m), cache',
                  [ProfileGet uname', CacheGet (storefront_key user)])"
    by (simp add: get_storefront_hit_eq)
qed

theorem storefront_key_follows_query_order_witness:
  "profiles example_storage ''wsmith'' = Some example_profile
   \<and> profiles example_storage ''julia'' = Some example_profile
   \<and> get_storefront example_storage example_cache ''wsmith'' =
       (Inr example_bundle,
        example_cache(''storefront:ministryoftruth_:unclassified'' \<mapsto> example_bundle),
        [ProfileGet ''wsmith'', CacheGet ''storefront:ministryoftruth_:unclassified'',
         ListingQuery ''wsmith'', ListingQuery ''wsmith'', ListingQuery ''wsmith'',
         CacheSet ''storefront:ministryoftruth_:unclassified''])
   \<and> get_storefront example_storage
        (example_cache(''storefront:ministryoftruth_:unclassified'' \<mapsto> example_bundle))
        ''julia'' =
       (Inr example_bundle,
        example_cache(''storefront:ministryoftruth_:unclassified'' \<mapsto> example_bundle),
        [ProfileGet ''julia'', CacheGet ''storefront:ministryoftruth_:unclassified''])"
proof -
  have h1: "profiles example_storage ''wsmith'' = Some example_profile"
    and h2: "profiles example_storage ''julia'' = Some example_profile"
    by (simp_all add: example_storage_def)
  note first = example_miss [unfolded example_bundle_def]
  from storefront_key_follows_query_order [OF h1, of example_cache] h2 first
  have "get_storefront example_storage
        (example_cache(''storefront:ministryoftruth_:unclassified'' \<mapsto> example_bundle))
        ''julia'' =
       (Inr example_bundle,
        example_cache(''storefront:ministryoftruth_:unclassified'' \<mapsto> example_bundle),
        [ProfileGet ''julia'', CacheGet (storefront_key example_profile)])"
    unfolding example_bundle_def by blast
  with h1 h2 example_miss show ?thesis
    by (simp add: example_key)
qed

subsection \<open>Cache hit\<close>

text \<open>
  Claim C9. On a cache hit \<open>get_storefront\<close> returns the cached value verbatim and leaves
  the cache as it was; its only accesses are the profile lookup that derives the key and
  the cache read, so it makes no listing query and no cache write. Hence, when a call
  returns a bundle, the next call for the same user (same profile; whatever the listing
  tables hold by then) returns the identical bundle from the cache.
\<close>

theorem second_call_served_from_cache:
  fixes db db' :: "('t::linorder, 'r::linorder) storage"
  shows "(profiles db uname = Some user \<and> cache (storefront_key user) = Some data \<longrightarrow>
            get_storefront db cache uname =
              (Inr data, cache, [ProfileGet uname, CacheGet (storefront_key user)]))
       \<and> (get_storefront db cache uname = (Inr (Storefront f r m), cache', evs)
            \<and> profiles db' uname = profiles db uname \<longrightarrow>
          (\<exists>user'. profiles db uname = Some user'
             \<and> get_storefront db' cache' uname =
                 (Inr (Storefront f r m), cache',
                  [ProfileGet uname, CacheGet (storefront_key user')])))"
proof (intro conjI impI)
  assume "profiles db uname = Some user \<and> cache (storefront_key user) = Some data"
  then show "get_storefront db cache uname =
      (Inr data, cache, [ProfileGet uname, CacheGet (storefront_key user)])"
    by (simp add: get_storefront_hit_eq)
next
  assume h: "get_storefront db cache uname = (Inr (Storefront f r m), cache', evs)
            \<and> profiles db' uname = profiles db uname"
  show "\<exists>user'. profiles db uname = Some user'
             \<and> get_storefront db' cache' uname =
                 (Inr (Storefront f r m), cache',
                  [ProfileGet uname, CacheGet (storefront_key user')])"
  proof (cases "profiles db uname")
    case None
    with h show ?thesis by (simp add: get_storefront_no_profile_eq)
  next
    case (Some user')
    with h have "cache' (storefront_key user') = Some (Storefront f r m)"
      by (blast intro: stored_after_bundle)
    moreover from Some h have "profiles db' uname = Some user'" by simp
    ultimately have "get_storefront db' cache' uname =
        (Inr (Storefront f r m), cache', [ProfileGet uname, CacheGet (storefront_key user')])"
      by (simp add: get_storefront_hit_eq)
    with Some show ?thesis by blast
  qed
qed

theorem second_call_served_from_cache_witness:
  "get_storefront example_storage example_cache ''wsmith'' =
       (Inr example_bundle,
        example_cache(''storefront:ministryoftruth_:unclassified'' \<mapsto> example_bundle),
        [ProfileGet ''wsmith'', CacheGet ''storefront:ministryoftruth_:unclassified'',
         ListingQuery ''wsmith'', ListingQuery ''wsmith'', ListingQuery ''wsmith'',
         CacheSet ''storefront:ministryoftruth_:unclassified''])
   \<and> profiles faulty_storage ''wsmith'' = profiles example_storage ''wsmith''
   \<and> get_storefront faulty_storage
        (example_cache(''storefront:ministryoftruth_:unclassified'' \<mapsto> example_bundle))
        ''wsmith'' =
       (Inr example_bundle,
        example_cache(''storefront:ministryoftruth_:unclassified'' \<mapsto> example_bundle),
        [ProfileGet ''wsmith'', CacheGet ''storefront:ministryoftruth_:unclassified''])"
proof -
  have p: "profiles example_storage ''wsmith'' = Some example_profile"
    by (simp add: example_storage_def)
  have h2: "profiles faulty_storage ''wsmith'' = profiles example_storage ''wsmith''"
    by (simp add: faulty_storage_def)
  note first = example_miss [unfolded example_bundle_def]
  from second_call_served_from_cache [of example_storage "''wsmith''" _ example_cache _ _ _ _
      "example_cache(''storefront:ministryoftruth_:unclassified'' \<mapsto> example_bundle)"
      _ faulty_storage] first h2 p
  have "get_storefront faulty_storage
        (example_cache(''storefront:ministryoftruth_:unclassified'' \<mapsto> example_bundle))
        ''wsmith'' =
       (Inr example_bundle,
        example_cache(''storefront:ministryoftruth_:unclassified'' \<mapsto> example_bundle),
        [ProfileGet ''wsmith'', CacheGet (storefront_key example_profile)])"
    unfolding example_bundle_def by auto
  with h2 example_miss show ?thesis
    by (simp add: example_key)
qed

subsection \<open>Missing profile\<close>

text \<open>
  Claim C10. For a username with no profile, the exception of the profile lookup leaves
  \<open>get_storefront\<close> as it is (the lookup stands before the \<open>try\<close> block): the call
  does not return the error dictionary, and it ends before any cache read or write.
\<close>

theorem missing_profile_raises:
  fixes db :: "('t::linorder, 'r::linorder) storage"
  assumes "profiles db uname = None"
  shows "get_storefront db cache uname =
      (Inl (DoesNotExist ''Profile matching query does not exist.''), cache, [ProfileGet uname])
    \<and> (\<forall>m. returned (get_storefront db cache uname) \<noteq> Inr (ErrorDict m))
    \<and> (\<forall>k. CacheGet k \<notin> set (accesses (get_storefront db cache uname))
           \<and> CacheSet k \<notin> set (accesses (get_storefront db cache uname)))"
  using assms by (simp add: get_storefront_no_profile_eq returned_def accesses_def)

theorem missing_profile_raises_witness:
  "profiles example_storage ''nobody'' = None
   \<and> get_storefront example_storage example_cache ''nobody'' =
      (Inl (DoesNotExist ''Profile matching query does not exist.''), example_cache,
       [ProfileGet ''nobody''])"
proof -
  have h: "profiles example_storage ''nobody'' = None"
    by (simp add: example_storage_def)
  from missing_profile_raises [OF h, of example_cache] h show ?thesis by blast
qed


section \<open>Properties of the notification engine\<close>

lemma digit_is_digit: "digit d \<in> set ascii_digits"
  unfolding digit_def by (rule nth_mem) (simp add: ascii_digits_def)

lemma render_timestamp_iso: "iso_format (render_timestamp t)"
  using digit_is_digit
  by (simp add: iso_format_def render_timestamp_def digits2_def digits4_def digits6_def)

lemma narrowed_subset: "set (narrowed f ns) \<subseteq> set ns"
  by (cases f) (auto simp add: narrowed_def)

lemmas example_notification_defs = example_now_def example_future_def example_past_def
  wsmith_def jones_def bigbrother_def note1_def note2_def note5_def example_engine_def

lemma set_insert_by: "set (insert_by p x ys) = insert x (set ys)"
  by (induction ys) auto

lemma set_sort_by: "set (sort_by p xs) = set xs"
  by (induction xs) (simp_all add: sort_by_def set_insert_by)

lemma mset_insert_by: "mset (insert_by p x ys) = add_mset x (mset ys)"
  by (induction ys) auto

lemma mset_sort_by: "mset (sort_by p xs) = mset xs"
  by (induction xs) (simp_all add: sort_by_def mset_insert_by)

lemma dismissals_serve: "dismissals eng \<subseteq> dismissals (serve eng r)"
  by (cases r)
     (auto simp add: dismiss_def create_def update_def Let_def split: option.splits if_splits)

lemma dismissals_serve_all: "dismissals eng \<subseteq> dismissals (serve_all eng reqs)"
  unfolding serve_all_def
proof (induction reqs arbitrary: eng)
  case Nil
  show ?case by simp
next
  case (Cons r reqs)
  have "dismissals eng \<subseteq> dismissals (serve eng r)" by (rule dismissals_serve)
  also have "\<dots> \<subseteq> dismissals (foldl serve (serve eng r) reqs)" by (rule Cons.IH)
  finally show ?case by simp
qed

lemma visible_to_not_dismissed:
  "(username u, i) \<in> dismissals eng \<Longrightarrow> i \<notin> nid ` set (visible_to eng u)"
  by (auto simp add: visible_to_def)

lemma visible_to_other:
  "username v \<noteq> username u \<Longrightarrow>
   visible_to (eng\<lparr>dismissals := insert (username u, i) (dismissals eng)\<rparr>) v = visible_to eng v"
  by (simp add: visible_to_def)

lemma sorted_wrt_insert_by:
  assumes tr: "\<And>a b c. R a b \<Longrightarrow> R b c \<Longrightarrow> R a c"
    and yes: "\<And>a b. p a b \<Longrightarrow> R a b"
    and no: "\<And>a b. \<not> p a b \<Longrightarrow> R b a"
    and s: "sorted_wrt R ys"
  shows "sorted_wrt R (insert_by p x ys)"
  using s
proof (induction ys)
  case Nil
  show ?case by simp
next
  case (Cons y ys)
  show ?case
  proof (cases "p x y")
    case True
    then have "R x y" by (rule yes)
    with Cons.prems tr have "\<forall>z\<in>set ys. R x z" by auto
    with True \<open>R x y\<close> Cons.prems show ?thesis by simp
  next
    case False
    then have "R y x" by (rule no)
    moreover from Cons have "sorted_wrt R (insert_by p x ys)" by simp
    ultimately show ?thesis using False Cons.prems by (auto simp add: set_insert_by)
  qed
qed

lemma sorted_wrt_sort_by:
  assumes tr: "\<And>a b c. R a b \<Longrightarrow> R b c \<Longrightarrow> R a c"
    and yes: "\<And>a b. p a b \<Longrightarrow> R a b"
    and no: "\<And>a b. \<not> p a b \<Longrightarrow> R b a"
  shows "sorted_wrt R (sort_by p xs)"
proof (induction xs)
  case Nil
  show ?case by (simp add: sort_by_def)
next
  case (Cons x xs)
  from tr yes no Cons have "sorted_wrt R (insert_by p x (sort_by p xs))"
    by (rule sorted_wrt_insert_by)
  then show ?case by (simp add: sort_by_def)
qed

lemma older_first_sorted: "sorted (map feed_key (sort_by older_first xs))"
proof -
  have "sorted_wrt (\<lambda>a b. feed_key a \<le> feed_key b) (sort_by older_first xs)"
    by (rule sorted_wrt_sort_by) (auto simp add: older_first_def)
  then show ?thesis by (simp add: sorted_wrt_map)
qed

lemma newer_first_sorted: "sorted (map feed_key (rev (sort_by newer_first xs)))"
proof -
  have "sorted_wrt (\<lambda>a b. feed_key b \<le> feed_key a) (sort_by newer_first xs)"
    by (rule sorted_wrt_sort_by) (auto simp add: newer_first_def)
  then show ?thesis by (simp add: sorted_wrt_map sorted_wrt_rev)
qed

lemma sort_by_reverse:
  assumes d: "distinct (map feed_key xs)"
  shows "sort_by older_first xs = rev (sort_by newer_first xs)"
proof -
  let ?A = "sort_by older_first xs" and ?B = "rev (sort_by newer_first xs)"
  have mA: "mset (map feed_key ?A) = mset (map feed_key xs)"
    by (simp add: mset_sort_by)
  have mB: "mset (map feed_key ?B) = mset (map feed_key xs)"
    by (simp add: mset_sort_by)
  from d mA have dA: "distinct (map feed_key ?A)"
    by (metis mset_eq_imp_distinct_iff)
  from d mB have dB: "distinct (map feed_key ?B)"
    by (metis mset_eq_imp_distinct_iff)
  have s: "set (map feed_key ?A) = set (map feed_key ?B)"
    by (simp add: set_sort_by)
  from older_first_sorted dA newer_first_sorted dB s
  have m: "map feed_key ?A = map feed_key ?B"
    by (rule sorted_distinct_set_unique)
  from d have "inj_on feed_key (set xs)" by (simp add: distinct_map)
  then have "inj_on feed_key (set ?A \<union> set ?B)" by (simp add: set_sort_by)
  then show ?thesis using m by (simp add: inj_on_map_eq_map)
qed

text \<open>Notifications with distinct ids have distinct places in the order.\<close>

lemma distinct_feed_key:
  assumes "distinct (map nid xs)"
  shows "distinct (map feed_key xs)"
proof -
  from assms have "distinct xs" and "inj_on nid (set xs)"
    by (simp_all add: distinct_map)
  then have "inj_on feed_key (set xs)"
    by (auto simp add: inj_on_def feed_key_def)
  with \<open>distinct xs\<close> show ?thesis by (simp add: distinct_map)
qed

lemma distinct_visible:
  assumes "distinct (map nid (notifications eng))"
  shows "distinct (map feed_key (visible_to eng u))"
  using assms unfolding visible_to_def
  by (intro distinct_feed_key) (rule distinct_map_filter)

text \<open>The requests keep the ids distinct: a created notification gets an id above all.\<close>

lemma fold_max_bounds: "a \<le> fold max xs a \<and> (\<forall>x\<in>set xs. x \<le> fold max xs (a::nat))"
proof (induction xs arbitrary: a)
  case Nil
  show ?case by simp
next
  case (Cons y ys)
  from Cons [of "max y a"] show ?case by auto
qed

lemma fresh_id_new: "fresh_id ns \<notin> nid ` set ns"
proof
  assume "fresh_id ns \<in> nid ` set ns"
  then have "fresh_id ns \<in> set (map nid ns)" by simp
  with fold_max_bounds [of 0 "map nid ns"] have "fresh_id ns \<le> fold max (map nid ns) 0"
    by blast
  then show False by (simp add: fresh_id_def)
qed

lemma distinct_ids_serve:
  assumes "distinct (map nid (notifications eng))"
  shows "distinct (map nid (notifications (serve eng r)))"
proof (cases r)
  case (Dismiss caller i)
  with assms show ?thesis
    by (auto simp add: dismiss_def split: option.splits if_splits)
next
  case (Create actor content expires scope now)
  with assms fresh_id_new [of "notifications eng"] show ?thesis
    by (auto simp add: create_def Let_def split: option.splits if_splits)
next
  case (Update actor i new_expires new_text)
  have "nid \<circ> (\<lambda>m. if nid m = i then amend new_expires new_text m else m) = nid"
    by (auto simp add: fun_eq_iff amend_def)
  with Update assms show ?thesis
    by (auto simp add: update_def split: option.splits if_splits)
qed

lemma distinct_ids_serve_all:
  "distinct (map nid (notifications eng)) \<Longrightarrow>
   distinct (map nid (notifications (serve_all eng reqs)))"
  unfolding serve_all_def
proof (induction reqs arbitrary: eng)
  case Nil
  then show ?case by simp
next
  case (Cons r reqs)
  from Cons.prems have "distinct (map nid (notifications (serve eng r)))"
    by (rule distinct_ids_serve)
  then have "distinct (map nid (notifications (foldl serve (serve eng r) reqs)))"
    by (rule Cons.IH)
  then show ?case by simp
qed

lemmas tie_defs = tie_a_def tie_b_def tie_engine_def example_now_def example_future_def wsmith_def

lemmas feed_defs = listSelfFeed_def visible_to_def addressed_to_def sort_by_def
  newer_first_def older_first_def feed_key_def ts_key_def

subsection \<open>Pending and expired notifications\<close>

text \<open>
  Claim C1. Whatever \<open>listPending\<close> returns, it returns with status 200, and every
  notification in it expires strictly after the current time; whatever \<open>listExpired\<close>
  returns, every notification in it has an expiry date at or before the current time. In
  both lists the rendered \<open>expires_date\<close> of every notification has the format
  \<open>YYYY-MM-DDTHH:MM:SS.ffffffZ\<close>.
\<close>

theorem pending_expired_partition:
  "(listPending eng caller listing_filter now = Inr (status, ns) \<longrightarrow>
      status = 200
      \<and> (\<forall>n\<in>set ns. ts_key now < ts_key (expires_date n)
            \<and> iso_format (r_expires_date (render_notification n))))
   \<and> (listExpired eng caller listing_filter now = Inr (status, ns) \<longrightarrow>
      status = 200
      \<and> (\<forall>n\<in>set ns. ts_key (expires_date n) \<le> ts_key now
            \<and> iso_format (r_expires_date (render_notification n))))"
proof (intro conjI impI)
  assume h: "listPending eng caller listing_filter now = Inr (status, ns)"
  then show "status = 200"
    by (auto simp add: listPending_def split: option.splits if_splits)
  from h have "ns = narrowed listing_filter (filter (pending now) (notifications eng))"
    by (auto simp add: listPending_def split: option.splits if_splits)
  with narrowed_subset have "set ns \<subseteq> set (filter (pending now) (notifications eng))"
    by blast
  then show "\<forall>n\<in>set ns. ts_key now < ts_key (expires_date n)
            \<and> iso_format (r_expires_date (render_notification n))"
    by (auto simp add: pending_def render_notification_def render_timestamp_iso)
next
  assume h: "listExpired eng caller listing_filter now = Inr (status, ns)"
  then show "status = 200"
    by (auto simp add: listExpired_def split: option.splits if_splits)
  from h have "ns = narrowed listing_filter (filter (expired now) (notifications eng))"
    by (auto simp add: listExpired_def split: option.splits if_splits)
  with narrowed_subset have "set ns \<subseteq> set (filter (expired now) (notifications eng))"
    by blast
  then show "\<forall>n\<in>set ns. ts_key (expires_date n) \<le> ts_key now
            \<and> iso_format (r_expires_date (render_notification n))"
    by (auto simp add: expired_def render_notification_def render_timestamp_iso)
qed

text \<open>
  The theorem at work on the example engine at \<open>example_now\<close>: the pending list holds the
  notifications 1 and 5, the expired list the notification 2, and the expiry date of
  notification 5 is rendered as \<open>2016-09-01T15:45:55.322421Z\<close>.
\<close>

theorem pending_expired_partition_witness:
  "listPending example_engine (Some wsmith) None example_now = Inr (200, [note1, note5])
   \<and> ts_key example_now < ts_key (expires_date note1)
   \<and> ts_key example_now < ts_key (expires_date note5)
   \<and> r_expires_date (render_notification note5) = ''2016-09-01T15:45:55.322421Z''
   \<and> iso_format (r_expires_date (render_notification note5))
   \<and> listExpired example_engine (Some wsmith) None example_now = Inr (200, [note2])
   \<and> ts_key (expires_date note2) \<le> ts_key example_now
   \<and> iso_format (r_expires_date (render_notification note2))"
proof -
  have p: "listPending example_engine (Some wsmith) None example_now = Inr (200, [note1, note5])"
    by (simp add: listPending_def narrowed_def pending_def ts_key_def example_notification_defs)
  have e: "listExpired example_engine (Some wsmith) None example_now = Inr (200, [note2])"
    by (simp add: listExpired_def narrowed_def expired_def ts_key_def example_notification_defs)
  have r: "r_expires_date (render_notification note5) = ''2016-09-01T15:45:55.322421Z''"
    by (simp add: render_notification_def render_timestamp_def digits2_def digits4_def
        digits6_def digit_def ascii_digits_def note5_def example_future_def)
  from pending_expired_partition [of example_engine "Some wsmith" None example_now 200
      "[note1, note5]"] p
  have a: "ts_key example_now < ts_key (expires_date note1)"
    "ts_key example_now < ts_key (expires_date note5)"
    "iso_format (r_expires_date (render_notification note5))"
    by simp_all
  from pending_expired_partition [of example_engine "Some wsmith" None example_now 200
      "[note2]"] e
  have b: "ts_key (expires_date note2) \<le> ts_key example_now"
    "iso_format (r_expires_date (render_notification note2))"
    by simp_all
  from p e r a b show ?thesis by blast
qed

subsection \<open>Dismissal\<close>

text \<open>
  Claim C2. Dismissing a notification that exists succeeds with status 204, whether the
  notification is pending or expired (the operation does not read the time). After a
  successful \<open>dismiss\<close> of the id \<open>i\<close> by the user \<open>u\<close>, and after any sequence of further
  requests, no self-feed of \<open>u\<close> in any ordering holds a notification with the id \<open>i\<close>;
  the dismissal leaves the notifications themselves as they were, and the self-feed of
  every other user is what it was before the dismissal.
\<close>

theorem dismissal_monotone:
  "(i \<in> nid ` set (notifications eng) \<longrightarrow>
      (\<exists>eng'. dismiss eng (Some u) i = Inr (204, eng')))
   \<and> (dismiss eng (Some u) i = Inr (status, eng') \<longrightarrow>
        status = 204
        \<and> notifications eng' = notifications eng
        \<and> (\<forall>reqs ord s ns.
              listSelfFeed (serve_all eng' reqs) (Some u) ord = Inr (s, ns) \<longrightarrow>
              i \<notin> nid ` set ns)
        \<and> (\<forall>v ord. username v \<noteq> username u \<longrightarrow>
              listSelfFeed eng' (Some v) ord = listSelfFeed eng (Some v) ord))"
proof (intro conjI impI allI)
  assume "i \<in> nid ` set (notifications eng)"
  then show "\<exists>eng'. dismiss eng (Some u) i = Inr (204, eng')"
    by (simp add: dismiss_def)
next
  assume h: "dismiss eng (Some u) i = Inr (status, eng')"
  then show "status = 204"
    by (auto simp add: dismiss_def split: if_splits)
  from h have e: "eng' = eng\<lparr>dismissals := insert (username u, i) (dismissals eng)\<rparr>"
    by (auto simp add: dismiss_def split: if_splits)
  then show "notifications eng' = notifications eng" by simp
  {
    fix reqs ord s ns
    assume f: "listSelfFeed (serve_all eng' reqs) (Some u) ord = Inr (s, ns)"
    from e have "(username u, i) \<in> dismissals eng'" by simp
    with dismissals_serve_all have "(username u, i) \<in> dismissals (serve_all eng' reqs)"
      by blast
    then have "i \<notin> nid ` set (visible_to (serve_all eng' reqs) u)"
      by (rule visible_to_not_dismissed)
    moreover from f have "set ns = set (visible_to (serve_all eng' reqs) u)"
      by (auto simp add: listSelfFeed_def set_sort_by)
    ultimately show "i \<notin> nid ` set ns" by simp
  }
  {
    fix v :: identity and ord
    assume "username v \<noteq> username u"
    then show "listSelfFeed eng' (Some v) ord = listSelfFeed eng (Some v) ord"
      by (simp add: listSelfFeed_def e visible_to_other)
  }
qed

text \<open>
  The theorem at work in the scenario: wsmith sees the notifications 5, 2 and 1, dismisses
  5 and then sees 2 and 1, while jones goes on seeing 5.
\<close>

theorem dismissal_monotone_witness:
  "dismiss example_engine (Some wsmith) 5 = Inr (204, dismissed_engine)
   \<and> notifications dismissed_engine = [note1, note2, note5]
   \<and> listSelfFeed example_engine (Some wsmith) DefaultOrdering = Inr (200, [note5, note2, note1])
   \<and> listSelfFeed dismissed_engine (Some wsmith) DefaultOrdering = Inr (200, [note2, note1])
   \<and> 5 \<notin> nid ` set [note2, note1]
   \<and> listSelfFeed dismissed_engine (Some jones) DefaultOrdering = Inr (200, [note5, note2])"
proof -
  have d: "dismiss example_engine (Some wsmith) 5 = Inr (204, dismissed_engine)"
    by (simp add: dismiss_def dismissed_engine_def example_notification_defs)
  have f0: "listSelfFeed example_engine (Some wsmith) DefaultOrdering
      = Inr (200, [note5, note2, note1])"
    by (simp add: feed_defs example_notification_defs)
  have f1: "listSelfFeed dismissed_engine (Some wsmith) DefaultOrdering
      = Inr (200, [note2, note1])"
    by (simp add: feed_defs dismissed_engine_def example_notification_defs)
  have j: "listSelfFeed example_engine (Some jones) DefaultOrdering = Inr (200, [note5, note2])"
    by (simp add: feed_defs example_notification_defs)
  have u: "username jones \<noteq> username wsmith"
    by (simp add: jones_def wsmith_def)
  have s: "serve_all dismissed_engine [] = dismissed_engine"
    by (simp add: serve_all_def)
  note t = dismissal_monotone [of 5 example_engine wsmith 204 dismissed_engine]
  from t d have n: "notifications dismissed_engine = notifications example_engine"
    by blast
  from t d have "\<forall>reqs ord s ns.
      listSelfFeed (serve_all dismissed_engine reqs) (Some wsmith) ord = Inr (s, ns) \<longrightarrow>
      5 \<notin> nid ` set ns"
    by blast
  with s f1 have a: "5 \<notin> nid ` set [note2, note1]"
    by metis
  from t d have "\<forall>v ord. username v \<noteq> username wsmith \<longrightarrow>
      listSelfFeed dismissed_engine (Some v) ord = listSelfFeed example_engine (Some v) ord"
    by blast
  with u j have o: "listSelfFeed dismissed_engine (Some jones) DefaultOrdering
      = Inr (200, [note5, note2])"
    by simp
  from n have n': "notifications dismissed_engine = [note1, note2, note5]"
    by (simp add: example_engine_def)
  from d n' f0 f1 a o show ?thesis by blast
qed

subsection \<open>Ordering of the self-feed\<close>

text \<open>
  Claim C3. The feed ordered by \<open>-created_date\<close> is the default feed, for every caller.
  In an engine whose notifications have distinct ids, the feed ordered by \<open>created_date\<close>
  is the exact reverse of the default feed, for every user, also when notifications have
  the same creation date. The ids are distinct in every engine that requests have built:
  the requests keep them distinct, and so the reverse property holds after any sequence
  of requests served from the start.
\<close>

theorem self_feed_ordering:
  "listSelfFeed eng caller MinusCreatedDate = listSelfFeed eng caller DefaultOrdering
   \<and> (distinct (map nid (notifications eng)) \<longrightarrow>
        listSelfFeed eng (Some u) DefaultOrdering = Inr (status, ns) \<longrightarrow>
        listSelfFeed eng (Some u) CreatedDate = Inr (status, rev ns))
   \<and> (distinct (map nid (notifications eng)) \<longrightarrow>
        distinct (map nid (notifications (serve_all eng reqs))))
   \<and> (listSelfFeed (serve_all \<lparr>notifications = [], dismissals = {}\<rparr> reqs) (Some u)
          DefaultOrdering = Inr (status, ns) \<longrightarrow>
        listSelfFeed (serve_all \<lparr>notifications = [], dismissals = {}\<rparr> reqs) (Some u)
          CreatedDate = Inr (status, rev ns))"
proof -
  have same: "listSelfFeed eng caller MinusCreatedDate = listSelfFeed eng caller DefaultOrdering"
    by (cases caller) (simp_all add: listSelfFeed_def)
  have reverse: "listSelfFeed e (Some u) CreatedDate = Inr (status, rev ns)"
    if d: "distinct (map nid (notifications e))"
      and h: "listSelfFeed e (Some u) DefaultOrdering = Inr (status, ns)" for e
  proof -
    from h have "status = 200" and "ns = sort_by newer_first (visible_to e u)"
      by (auto simp add: listSelfFeed_def)
    with sort_by_reverse [OF distinct_visible [OF d, of u]]
    show ?thesis by (simp add: listSelfFeed_def)
  qed
  have kept: "distinct (map nid (notifications (serve_all e reqs)))"
    if "distinct (map nid (notifications e))" for e
    using that by (rule distinct_ids_serve_all)
  have start: "distinct (map nid (notifications \<lparr>notifications = [], dismissals = {}\<rparr>))"
    by simp
  from same reverse kept kept [OF start] show ?thesis by blast
qed

text \<open>
  The theorem at work in the scenario: wsmith sees the notifications with the ids 1, 2 and
  5, created in that order; the default feed is 5, 2, 1 and the ascending feed is 1, 2, 5.
  Of two notifications created at the same instant, the one with the greater id comes
  first in the default feed and last in the ascending feed.
\<close>

theorem self_feed_ordering_witness:
  "distinct (map nid (notifications example_engine))
   \<and> listSelfFeed example_engine (Some wsmith) DefaultOrdering = Inr (200, [note5, note2, note1])
   \<and> listSelfFeed example_engine (Some wsmith) MinusCreatedDate = Inr (200, [note5, note2, note1])
   \<and> listSelfFeed example_engine (Some wsmith) CreatedDate = Inr (200, [note1, note2, note5])
   \<and> map nid [note5, note2, note1] = [5, 2, 1]
   \<and> map nid [note1, note2, note5] = [1, 2, 5]
   \<and> distinct (map nid (notifications tie_engine))
   \<and> created_date tie_a = created_date tie_b
   \<and> listSelfFeed tie_engine (Some wsmith) DefaultOrdering = Inr (200, [tie_b, tie_a])
   \<and> listSelfFeed tie_engine (Some wsmith) CreatedDate = Inr (200, [tie_a, tie_b])"
proof -
  have d: "distinct (map nid (notifications example_engine))"
    by (simp add: example_notification_defs)
  have f: "listSelfFeed example_engine (Some wsmith) DefaultOrdering
      = Inr (200, [note5, note2, note1])"
    by (simp add: feed_defs example_notification_defs)
  note t = self_feed_ordering [of example_engine "Some wsmith" wsmith 200 "[note5, note2, note1]"]
  from t f have m: "listSelfFeed example_engine (Some wsmith) MinusCreatedDate
      = Inr (200, [note5, note2, note1])"
    by simp
  from t d f have a: "listSelfFeed example_engine (Some wsmith) CreatedDate
      = Inr (200, [note1, note2, note5])"
    by simp
  have i: "map nid [note5, note2, note1] = [5, 2, 1]" "map nid [note1, note2, note5] = [1, 2, 5]"
    by (simp_all add: note1_def note2_def note5_def)
  have d': "distinct (map nid (notifications tie_engine))"
    and c: "created_date tie_a = created_date tie_b"
    by (simp_all add: tie_defs)
  have f': "listSelfFeed tie_engine (Some wsmith) DefaultOrdering = Inr (200, [tie_b, tie_a])"
    by (simp add: feed_defs tie_defs)
  from self_feed_ordering [of tie_engine "Some wsmith" wsmith 200 "[tie_b, tie_a]"] d' f'
  have a': "listSelfFeed tie_engine (Some wsmith) CreatedDate = Inr (200, [tie_a, tie_b])"
    by simp
  from d f m a i d' c f' a' show ?thesis by blast
qed

subsection \<open>The role gate\<close>

text \<open>
  Claim C4. For a caller who lacks the elevated role, \<open>listPending\<close>, \<open>listExpired\<close> and
  \<open>create\<close> each answer with the rejection \<open>AccessDenied\<close> (status 403), which carries no
  data. An elevated actor who creates a notification with an expiry date in the future
  gets status 201 and the created record, whose message is the submitted message and
  which is among the notifications of the new state.
\<close>

theorem role_gate:
  "(\<not> elevated u \<longrightarrow>
      listPending eng (Some u) listing_filter now = Inl AccessDenied
      \<and> listExpired eng (Some u) listing_filter now = Inl AccessDenied
      \<and> create eng (Some u) content expires scope now = Inl AccessDenied
      \<and> http_status AccessDenied = 403)
   \<and> (elevated u \<and> ts_key now < ts_key expires \<longrightarrow>
        (\<exists>n eng'. create eng (Some u) content expires scope now = Inr (201, n, eng')
           \<and> message n = content \<and> author n = username u \<and> expires_date n = expires
           \<and> n \<in> set (notifications eng')))"
  by (simp add: listPending_def listExpired_def create_def Let_def)

text \<open>
  The theorem at work in the scenario: jones is rejected three times, and bigbrother
  creates the notification 6 with the message \<open>a simple test\<close>.
\<close>

theorem role_gate_witness:
  "\<not> elevated jones
   \<and> listPending example_engine (Some jones) None example_now = Inl AccessDenied
   \<and> listExpired example_engine (Some jones) None example_now = Inl AccessDenied
   \<and> create example_engine (Some jones) ''a simple test'' example_future AllUsers example_now
       = Inl AccessDenied
   \<and> http_status AccessDenied = 403
   \<and> elevated bigbrother
   \<and> ts_key example_now < ts_key example_future
   \<and> create example_engine (Some bigbrother) ''a simple test'' example_future AllUsers
         example_now
       = Inr (201, created_note, example_engine\<lparr>notifications := [note1, note2, note5, created_note]\<rparr>)
   \<and> message created_note = ''a simple test''"
proof -
  have j: "\<not> elevated jones" by (simp add: jones_def)
  have b: "elevated bigbrother" by (simp add: bigbrother_def)
  have l: "ts_key example_now < ts_key example_future"
    by (simp add: ts_key_def example_now_def example_future_def)
  have c: "create example_engine (Some bigbrother) ''a simple test'' example_future AllUsers
         example_now
       = Inr (201, created_note, example_engine\<lparr>notifications := [note1, note2, note5, created_note]\<rparr>)"
    by (simp add: create_def Let_def fresh_id_def created_note_def bigbrother_def
        example_engine_def note1_def note2_def note5_def)
  from role_gate [where u = jones and eng = example_engine and listing_filter = None
      and now = example_now and content = "''a simple test''" and expires = example_future
      and scope = AllUsers] j
  have r: "listPending example_engine (Some jones) None example_now = Inl AccessDenied"
    "listExpired example_engine (Some jones) None example_now = Inl AccessDenied"
    "create example_engine (Some jones) ''a simple test'' example_future AllUsers example_now
       = Inl AccessDenied"
    "http_status AccessDenied = 403"
    by blast+
  from role_gate [where u = bigbrother and eng = example_engine and listing_filter = None
      and now = example_now and content = "''a simple test''" and expires = example_future
      and scope = AllUsers] b l
  have "\<exists>n eng'. create example_engine (Some bigbrother) ''a simple test'' example_future
         AllUsers example_now = Inr (201, n, eng') \<and> message n = ''a simple test''"
    by blast
  with c have m: "message created_note = ''a simple test''"
    by simp
  from j r b l c m show ?thesis by blast
qed

end
